theory Spec2Isabelle
  imports Main "HOL-Library.Char_ord" "HOL-Library.List_Lexorder" "HOL-Library.Sublist"
begin

section \<open>Values shared by the whole package\<close>

text \<open>
  Go strings and byte slices are sequences of bytes: both are \<open>char list\<close> here.
  A Go function that can panic returns a value of \<open>'a go\<close>; a Go \<open>error\<close> result is
  an \<open>error option\<close>, \<open>None\<close> being \<open>nil\<close>.
\<close>

type_synonym bytes = string

datatype error =
    errorString string
  | EOF
  | netError bool bool string
  | Errno nat
  | urlError string

datatype panic = IndexOutOfRange nat nat | NilDereference

datatype 'a go = Panics panic | Returns 'a

section \<open>The parts of the Go standard library the package calls\<close>

subsection \<open>Package strings\<close>

text \<open>
  \<open>strings.Split\<close>, \<open>strings.SplitN\<close> and \<open>strings.Join\<close>. The package only ever
  splits on the one-byte separator \<open>"."\<close>, so the separator of the two split functions is a
  single byte. \<open>genSplit\<close> is the loop both share: it cuts at the first separator as long
  as cuts remain, and the rest of the string is the last element.
\<close>

fun IndexByte :: "string \<Rightarrow> char \<Rightarrow> nat option" where
  "IndexByte [] c = None"
| "IndexByte (x # xs) c = (if x = c then Some 0 else map_option Suc (IndexByte xs c))"

definition Count :: "string \<Rightarrow> char \<Rightarrow> nat" where
  "Count s c = length (filter (\<lambda>x. x = c) s)"

fun genSplit :: "string \<Rightarrow> char \<Rightarrow> nat \<Rightarrow> string list" where
  "genSplit s sep 0 = [s]"
| "genSplit s sep (Suc k) =
     (case IndexByte s sep of
        None \<Rightarrow> [s]
      | Some m \<Rightarrow> take m s # genSplit (drop (m + 1) s) sep k)"

definition SplitN :: "string \<Rightarrow> char \<Rightarrow> int \<Rightarrow> string list" where
  "SplitN s sep n =
     (if n = 0 then []
      else if n < 0 then genSplit s sep (Count s sep)
      else genSplit s sep (min (nat n) (length s + 1) - 1))"

definition Split :: "string \<Rightarrow> char \<Rightarrow> string list" where
  "Split s sep = SplitN s sep (- 1)"

fun Join :: "string list \<Rightarrow> string \<Rightarrow> string" where
  "Join [] sep = []"
| "Join [x] sep = x"
| "Join (x # y # ys) sep = x @ sep @ Join (y # ys) sep"

subsection \<open>Package net/url: query values\<close>

text \<open>
  \<open>url.Values\<close> maps a key to a list of values; \<open>Encode\<close> walks the keys in sorted
  order, so the map is an association list with distinct keys. \<open>QueryEscape\<close> keeps the
  unreserved bytes, writes a space as \<open>+\<close> and every other byte as \<open>%XX\<close>.
\<close>

type_synonym Values = "(string \<times> string list) list"

fun Values_Set :: "Values \<Rightarrow> string \<Rightarrow> string \<Rightarrow> Values" where
  "Values_Set [] k v = [(k, [v])]"
| "Values_Set ((k', vs) # rest) k v =
     (if k' = k then (k, [v]) # rest else (k', vs) # Values_Set rest k v)"

definition shouldEscape :: "char \<Rightarrow> bool" where
  "shouldEscape c =
     (let n = (of_char c :: nat) in
      \<not> ((97 \<le> n \<and> n \<le> 122) \<or> (65 \<le> n \<and> n \<le> 90) \<or> (48 \<le> n \<and> n \<le> 57)
         \<or> c = CHR ''-'' \<or> c = CHR ''_'' \<or> c = CHR ''.'' \<or> c = CHR ''~''))"

definition upperhex :: string where
  "upperhex = ''0123456789ABCDEF''"

definition escape_byte :: "char \<Rightarrow> string" where
  "escape_byte c =
     (if shouldEscape c then
        (if c = CHR '' '' then ''+''
         else [CHR ''%'', upperhex ! ((of_char c :: nat) div 16),
               upperhex ! ((of_char c :: nat) mod 16)])
      else [c])"

definition QueryEscape :: "string \<Rightarrow> string" where
  "QueryEscape s = concat (map escape_byte s)"

fun Encode_values :: "string \<Rightarrow> string \<Rightarrow> string list \<Rightarrow> string" where
  "Encode_values buf keyEscaped [] = buf"
| "Encode_values buf keyEscaped (v # vs) =
     Encode_values
       ((if buf \<noteq> [] then buf @ ''&'' else buf) @ keyEscaped @ ''='' @ QueryEscape v)
       keyEscaped vs"

fun Encode_keys :: "Values \<Rightarrow> string \<Rightarrow> string list \<Rightarrow> string" where
  "Encode_keys v buf [] = buf"
| "Encode_keys v buf (k # keys) =
     Encode_keys v
       (Encode_values buf (QueryEscape k) (case map_of v k of None \<Rightarrow> [] | Some vs \<Rightarrow> vs))
       keys"

definition Encode :: "Values \<Rightarrow> string" where
  "Encode v = Encode_keys v [] (sort (map fst v))"

section \<open>Requests and resolvers\<close>

record Request =
  Query :: string
  Host :: string
  Body :: bytes
  URL :: string

text \<open>
  Modelled from the spec: \<open>NewRequest\<close> is not among the sources. The spec's Request has
  the four fields above and is constructed once per query by the resolution step, with Host
  empty until a zone matches and Body and URL set only by a Resolver.
\<close>

definition NewRequest :: "string \<Rightarrow> Request" where
  "NewRequest q = \<lparr>Query = q, Host = [], Body = [], URL = []\<rparr>"

text \<open>
  A resolver is the \<open>Resolve\<close> method of a server: it mutates the request it is given
  and returns an error, or panics.
\<close>

type_synonym resolver = "Request \<Rightarrow> (Request \<times> error option) go"

subsection \<open>server.go\<close>

fun register :: "resolver \<Rightarrow> string list \<Rightarrow> (string \<rightharpoonup> resolver) \<Rightarrow> (string \<rightharpoonup> resolver)" where
  "register server [] Servers = Servers"
| "register server (name # names) Servers = register server names (Servers(name \<mapsto> server))"

subsection \<open>Cenpac\<close>

definition Cenpac_Resolve :: resolver where
  "Cenpac_Resolve req =
     (let labels = SplitN (Query req) (CHR ''.'') 2;
          values = [] in
      if length labels \<le> 0 then Panics (IndexOutOfRange 0 (length labels))
      else let values = Values_Set values ''subdomain'' (labels ! 0) in
      if length labels \<le> 1 then Panics (IndexOutOfRange 1 (length labels))
      else let values = Values_Set values ''tld'' (labels ! 1) in
      Returns (req\<lparr>URL := ''http://cenpac.net.nr/dns/whois.html?'' @ Encode values,
                   Body := []\<rparr>, None))"

definition Cenpac_init :: "(string \<rightharpoonup> resolver) \<Rightarrow> (string \<rightharpoonup> resolver)" where
  "Cenpac_init Servers = register Cenpac_Resolve [''cenpac.net.nr''] Servers"

subsection \<open>Resolve\<close>

text \<open>
  The zone table \<open>zones\<close>, the registry \<open>servers\<close> and \<open>defaultServer\<close> are package
  variables that are not among the sources: they are parameters. Reading a missing key of a
  Go map gives the zero value and \<open>false\<close>.
\<close>

definition zones_lookup :: "(string \<rightharpoonup> string) \<Rightarrow> string \<Rightarrow> string \<times> bool" where
  "zones_lookup zones k = (case zones k of None \<Rightarrow> ([], False) | Some h \<Rightarrow> (h, True))"

function Resolve_loop ::
  "(string \<rightharpoonup> string) \<Rightarrow> string list \<Rightarrow> nat \<Rightarrow> Request \<Rightarrow> bool \<Rightarrow> Request \<times> bool" where
  "Resolve_loop zones labels i req ok =
     (if i < length labels \<and> \<not> ok then
        (case zones_lookup zones (Join (drop i labels) ''.'') of
           (h, ok') \<Rightarrow> Resolve_loop zones labels (i + 1) (req\<lparr>Host := h\<rparr>) ok')
      else (req, ok))"
  by pat_completeness auto
termination
  by (relation "measure (\<lambda>(zones, labels, i, req, ok). length labels - i)") auto

definition Resolve ::
  "(string \<rightharpoonup> string) \<Rightarrow> (string \<rightharpoonup> resolver) \<Rightarrow> resolver \<Rightarrow> string
     \<Rightarrow> (Request \<times> error option) go" where
  "Resolve zones servers defaultServer q =
     (let req = NewRequest q;
          labels = Split q (CHR ''.'')
      in case Resolve_loop zones labels 0 req False of
           (req, ok) \<Rightarrow>
             if \<not> ok then Returns (req, Some (errorString (''No whois server found for '' @ q)))
             else
               let srv = (case servers (Host req) of None \<Rightarrow> defaultServer | Some s \<Rightarrow> s)
               in (case srv req of
                     Panics p \<Rightarrow> Panics p
                   | Returns (req', _) \<Rightarrow> Returns (req', None)))"

section \<open>client.go: the world outside the package\<close>

text \<open>
  Time is a count of nanoseconds, as \<open>time.Duration\<close> is; the model lets it range over
  all integers. Everything the package does not define itself is a field of the environment
  \<open>env\<close>: the clock, the network, the SOCKS library, the HTTP client's round trip, the
  standard error stream. Each operation takes the state \<open>'w\<close> of the outside world and
  returns the new one; an operation that can block for ever returns \<open>None\<close> when it does.
  \<open>'c\<close> is a \<open>net.Conn\<close>, \<open>'b\<close> the body of an HTTP response.
\<close>

type_synonym time = int
type_synonym Duration = int

datatype socks_version = SOCKS4 | SOCKS5

record url =
  Scheme :: string
  UHost :: string

record DefaultTimeoutDialer =
  timeout :: Duration

text \<open>
  A value of the Go type \<open>func(network, addr string) (net.Conn, error)\<close>: the package
  builds two kinds, the method value \<open>dialer.Dial\<close> and the closure returned by
  \<open>socks.DialSocksProxyTimeout\<close>. \<open>None\<close> is the nil function.
\<close>

datatype dial_func =
    Dialer_Dial DefaultTimeoutDialer
  | DialSocksProxyTimeout socks_version string Duration

record Transport =
  Proxy :: "url option"
  TLSHandshakeTimeout :: Duration
  ResponseHeaderTimeout :: Duration
  Dial :: "dial_func option"

record http_Client =
  Transport :: Transport

record Client =
  httpClient :: http_Client
  dialFunc :: "dial_func option"

type_synonym Header = "(string \<times> string list) list"

record http_Request =
  Method :: string
  ReqURL :: url
  ReqHeader :: Header
  ReqBody :: "bytes option"

record 'b http_Response =
  RespHeader :: Header
  RespBody :: 'b

datatype fmt_arg = ArgString string | ArgError error | ArgInt int | ArgBool bool

record ('w, 'c, 'b) env =
  url_Parse :: "string \<Rightarrow> error + url"
  time_Now :: "'w \<Rightarrow> time"
  net_DialTimeout :: "string \<Rightarrow> string \<Rightarrow> Duration \<Rightarrow> 'w \<Rightarrow> ((error + 'c) \<times> 'w) option"
  socks_Dial ::
    "socks_version \<Rightarrow> string \<Rightarrow> Duration \<Rightarrow> string \<Rightarrow> string \<Rightarrow> 'w
       \<Rightarrow> ((error + 'c) \<times> 'w) option"
  conn_SetDeadline :: "'c \<Rightarrow> time \<Rightarrow> 'w \<Rightarrow> error option \<times> 'w"
  conn_Write :: "'c \<Rightarrow> bytes \<Rightarrow> 'w \<Rightarrow> ((nat \<times> error option) \<times> 'w) option"
  conn_Read :: "'c \<Rightarrow> nat \<Rightarrow> 'w \<Rightarrow> ((bytes \<times> error option) \<times> 'w) option"
  conn_Close :: "'c \<Rightarrow> 'w \<Rightarrow> 'w"
  http_Do :: "Transport \<Rightarrow> http_Request \<Rightarrow> 'w \<Rightarrow> ((error + 'b http_Response) \<times> 'w) option"
  body_Read :: "'b \<Rightarrow> nat \<Rightarrow> 'w \<Rightarrow> ((bytes \<times> error option) \<times> 'w) option"
  stderr_Fprintf :: "string \<Rightarrow> fmt_arg list \<Rightarrow> 'w \<Rightarrow> 'w"
  log_Debugf :: "string \<Rightarrow> fmt_arg list \<Rightarrow> 'w \<Rightarrow> 'w"
  buffer_room :: "nat \<Rightarrow> nat"
  sniff :: "bytes \<Rightarrow> string"

subsection \<open>Responses\<close>

record Response =
  ResQuery :: string
  ResHost :: string
  ResBody :: bytes
  ContentType :: string

text \<open>
  Modelled from the spec: \<open>NewResponse\<close> and \<open>DetectContentType\<close> are not among the
  sources. The spec's Response has the four fields above; an explicit content type supplied
  by the transport is trusted, otherwise the first bytes of the body are sniffed, by a
  heuristic that is a field of the environment.
\<close>

definition NewResponse :: "string \<Rightarrow> string \<Rightarrow> Response" where
  "NewResponse q h = \<lparr>ResQuery = q, ResHost = h, ResBody = [], ContentType = []\<rparr>"

definition DetectContentType :: "(bytes \<Rightarrow> string) \<Rightarrow> Response \<Rightarrow> string \<Rightarrow> Response" where
  "DetectContentType sn res ct =
     res\<lparr>ContentType := (if ct \<noteq> [] then ct else sn (ResBody res))\<rparr>"

subsection \<open>Package io: LimitReader and ReadAll\<close>

text \<open>
  A reader is its \<open>Read\<close> method: given the reader's state, the length of the buffer
  offered and the world, it returns the bytes read, an error and the new state.
  \<open>ReadAll\<close> offers the free room of its buffer, which the runtime decides
  (\<open>buffer_room\<close>, from the number of bytes held), until a read returns an error; it may
  do so for ever.
\<close>

type_synonym ('s, 'w) reader = "'s \<Rightarrow> nat \<Rightarrow> 'w \<Rightarrow> (((bytes \<times> error option) \<times> 's) \<times> 'w) option"

record 'r LimitedReader =
  R :: 'r
  N :: int

definition LimitReader :: "'r \<Rightarrow> int \<Rightarrow> 'r LimitedReader" where
  "LimitReader r n = \<lparr>R = r, N = n\<rparr>"

definition LimitedReader_Read ::
  "('r \<Rightarrow> nat \<Rightarrow> 'w \<Rightarrow> ((bytes \<times> error option) \<times> 'w) option) \<Rightarrow> ('r LimitedReader, 'w) reader" where
  "LimitedReader_Read rd l p w =
     (if N l \<le> 0 then Some ((([], Some EOF), l), w)
      else
        let p = (if int p > N l then nat (N l) else p)
        in case rd (R l) p w of
             None \<Rightarrow> None
           | Some ((data, err), w') \<Rightarrow>
               Some (((data, err), l\<lparr>N := N l - int (length data)\<rparr>), w'))"

partial_function (option) ReadAll_loop ::
  "('s, 'w) reader \<Rightarrow> (nat \<Rightarrow> nat) \<Rightarrow> 's \<Rightarrow> bytes \<Rightarrow> 'w \<Rightarrow> ((bytes \<times> error option) \<times> 'w) option" where
  "ReadAll_loop rd room r b w =
     (case rd r (room (length b)) w of
        None \<Rightarrow> None
      | Some (((data, err), r'), w') \<Rightarrow>
          (case err of
             Some e \<Rightarrow> Some ((b @ data, if e = EOF then None else Some e), w')
           | None \<Rightarrow> ReadAll_loop rd room r' (b @ data) w'))"

definition ReadAll ::
  "('s, 'w) reader \<Rightarrow> (nat \<Rightarrow> nat) \<Rightarrow> 's \<Rightarrow> 'w \<Rightarrow> ((bytes \<times> error option) \<times> 'w) option" where
  "ReadAll rd room r w = ReadAll_loop rd room r [] w"

subsection \<open>Constants and client construction\<close>

definition DefaultTimeout :: Duration where
  "DefaultTimeout = 30 * 1000000000"

definition DefaultReadLimit :: int where
  "DefaultReadLimit = 2 ^ 20"

text \<open>\<open>strings.ToLower\<close> on the ASCII letters, which is all a URL scheme can hold.\<close>

definition ToLower :: "string \<Rightarrow> string" where
  "ToLower s =
     map (\<lambda>c. let n = (of_char c :: nat) in if 65 \<le> n \<and> n \<le> 90 then char_of (n + 32) else c) s"

definition NewClientWithProxy ::
  "('w, 'c, 'b) env \<Rightarrow> Duration \<Rightarrow> string \<Rightarrow> 'w \<Rightarrow> Client \<times> 'w" where
  "NewClientWithProxy env tmo proxy w =
     (let proxyFunc = None;
          dialFunc = None
      in case
           (if proxy \<noteq> [] then
              (case url_Parse env proxy of
                 Inl err \<Rightarrow>
                   (None, dialFunc,
                    log_Debugf env ''Error parsing URL (%s): %s'' [ArgString proxy, ArgError err] w)
               | Inr proxyURL \<Rightarrow>
                   (Some proxyURL,
                    (if ToLower (Scheme proxyURL) = ''socks5''
                     then Some (DialSocksProxyTimeout SOCKS5 (UHost proxyURL) tmo)
                     else Some (DialSocksProxyTimeout SOCKS4 (UHost proxyURL) tmo)),
                    log_Debugf env ''Parsing URL (%s) successful! Host: %s\<newline>''
                      [ArgString proxy, ArgString (UHost proxyURL)] w))
            else
              (proxyFunc, Some (Dialer_Dial \<lparr>timeout = tmo\<rparr>),
               log_Debugf env ''Proxy string empty!'' [] w))
         of (proxyFunc, dialFunc, w) \<Rightarrow>
           let transport = \<lparr>Proxy = proxyFunc, TLSHandshakeTimeout = tmo,
                             ResponseHeaderTimeout = tmo, Dial = None\<rparr>;
               transport = transport\<lparr>Dial := dialFunc\<rparr>
           in (\<lparr>httpClient = \<lparr>Transport = transport\<rparr>, dialFunc = dialFunc\<rparr>, w))"

definition NewClient :: "('w, 'c, 'b) env \<Rightarrow> Duration \<Rightarrow> 'w \<Rightarrow> Client \<times> 'w" where
  "NewClient env tmo w = NewClientWithProxy env tmo [] w"

subsection \<open>Dialing\<close>

definition DefaultTimeoutDialer_Dial ::
  "('w, 'c, 'b) env \<Rightarrow> DefaultTimeoutDialer \<Rightarrow> string \<Rightarrow> string \<Rightarrow> 'w
     \<Rightarrow> ((error + 'c) \<times> 'w) option" where
  "DefaultTimeoutDialer_Dial env c network address w =
     (let deadline = time_Now env w + timeout c
      in case net_DialTimeout env network address (timeout c) w of
           None \<Rightarrow> None
         | Some (Inl err, w) \<Rightarrow> Some (Inl err, w)
         | Some (Inr conn, w) \<Rightarrow> Some (Inr conn, snd (conn_SetDeadline env conn deadline w)))"

text \<open>Calling a function value: the closure of the SOCKS library is a call of that library.\<close>

fun call_dial_func ::
  "('w, 'c, 'b) env \<Rightarrow> dial_func \<Rightarrow> string \<Rightarrow> string \<Rightarrow> 'w \<Rightarrow> ((error + 'c) \<times> 'w) option" where
  "call_dial_func env (Dialer_Dial d) network address w =
     DefaultTimeoutDialer_Dial env d network address w"
| "call_dial_func env (DialSocksProxyTimeout v proxy tmo) network address w =
     socks_Dial env v proxy tmo network address w"

definition Client_Dial ::
  "('w, 'c, 'b) env \<Rightarrow> Client \<Rightarrow> string \<Rightarrow> string \<Rightarrow> 'w \<Rightarrow> ((error + 'c) go \<times> 'w) option" where
  "Client_Dial env c network address w =
     (case dialFunc c of
        None \<Rightarrow> Some (Panics NilDereference, w)
      | Some f \<Rightarrow> map_option (\<lambda>(r, w). (Returns r, w)) (call_dial_func env f network address w))"

subsection \<open>Fetching\<close>

definition logError :: "('w, 'c, 'b) env \<Rightarrow> error \<Rightarrow> 'w \<Rightarrow> 'w" where
  "logError env err w =
     (case err of
        Errno t \<Rightarrow>
          stderr_Fprintf env ''syscall.Errno %d: %s\<newline>'' [ArgInt (int t), ArgError err] w
      | netError tm tp msg \<Rightarrow>
          stderr_Fprintf env ''net.Error timeout=%t, temp=%t: %s\<newline>''
            [ArgBool tm, ArgBool tp, ArgError err] w
      | _ \<Rightarrow> stderr_Fprintf env ''Unknown error %v: %s\<newline>'' [ArgError err, ArgError err] w)"

text \<open>
  \<open>http.NewRequest\<close> fails when the URL does not parse (the two methods the package passes
  are valid); the new request has an empty header. \<open>Header.Add\<close> appends to the values of
  a key and \<open>Header.Get\<close> returns the first one; the two keys the package uses,
  \<open>Referer\<close> and \<open>Content-Type\<close>, are in canonical form already.
\<close>

definition http_NewRequest ::
  "(string \<Rightarrow> error + url) \<Rightarrow> string \<Rightarrow> string \<Rightarrow> bytes option \<Rightarrow> http_Request option \<times> error option" where
  "http_NewRequest parse method urlStr body =
     (case parse urlStr of
        Inl err \<Rightarrow> (None, Some err)
      | Inr u \<Rightarrow> (Some \<lparr>Method = method, ReqURL = u, ReqHeader = [], ReqBody = body\<rparr>, None))"

fun Header_Add :: "Header \<Rightarrow> string \<Rightarrow> string \<Rightarrow> Header" where
  "Header_Add [] k v = [(k, [v])]"
| "Header_Add ((k', vs) # rest) k v =
     (if k' = k then (k', vs @ [v]) # rest else (k', vs) # Header_Add rest k v)"

definition Header_Get :: "Header \<Rightarrow> string \<Rightarrow> string" where
  "Header_Get h k = (case map_of h k of None \<Rightarrow> [] | Some [] \<Rightarrow> [] | Some (v # _) \<Rightarrow> v)"

definition httpRequest ::
  "(string \<Rightarrow> error + url) \<Rightarrow> Request \<Rightarrow> (http_Request option \<times> error option) go" where
  "httpRequest parse req =
     (case (if length (Body req) > 0
            then http_NewRequest parse ''POST'' (URL req) (Some (Body req))
            else http_NewRequest parse ''GET'' (URL req) None) of
        (hreq, err) \<Rightarrow>
          if err \<noteq> None then Returns (None, err)
          else (case hreq of
                  None \<Rightarrow> Panics NilDereference
                | Some h \<Rightarrow>
                    Returns (Some (h\<lparr>ReqHeader := Header_Add (ReqHeader h) ''Referer'' (URL req)\<rparr>),
                             None)))"

type_synonym 'w fetched = "((Response option \<times> error option) go \<times> 'w) option"

definition fetchWhois :: "('w, 'c, 'b) env \<Rightarrow> Client \<Rightarrow> Request \<Rightarrow> 'w \<Rightarrow> 'w fetched" where
  "fetchWhois env c req w =
     (case Client_Dial env c ''tcp'' (Host req @ '':43'') w of
        None \<Rightarrow> None
      | Some (Panics p, w) \<Rightarrow> Some (Panics p, w)
      | Some (Returns (Inl err), w) \<Rightarrow> Some (Returns (None, Some err), w)
      | Some (Returns (Inr conn), w) \<Rightarrow>
          (case conn_Write env conn (Body req) w of
             None \<Rightarrow> None
           | Some ((n, Some err), w) \<Rightarrow>
               Some (Returns (None, Some err), conn_Close env conn (logError env err w))
           | Some ((n, None), w) \<Rightarrow>
               (let res = NewResponse (Query req) (Host req)
                in case ReadAll (LimitedReader_Read (conn_Read env)) (buffer_room env)
                          (LimitReader conn DefaultReadLimit) w of
                     None \<Rightarrow> None
                   | Some ((b, err), w) \<Rightarrow>
                       (let res = res\<lparr>ResBody := b\<rparr>
                        in case err of
                             Some e \<Rightarrow>
                               Some (Returns (None, Some e),
                                     conn_Close env conn (logError env e w))
                           | None \<Rightarrow>
                               Some (Returns (Some (DetectContentType (sniff env) res []), None),
                                     conn_Close env conn w)))))"

definition fetchHTTP :: "('w, 'c, 'b) env \<Rightarrow> Client \<Rightarrow> Request \<Rightarrow> 'w \<Rightarrow> 'w fetched" where
  "fetchHTTP env c req w =
     (case httpRequest (url_Parse env) req of
        Panics p \<Rightarrow> Some (Panics p, w)
      | Returns (_, Some err) \<Rightarrow> Some (Returns (None, Some err), w)
      | Returns (None, None) \<Rightarrow> Some (Panics NilDereference, w)
      | Returns (Some hreq, None) \<Rightarrow>
          (case http_Do env (Transport (httpClient c)) hreq w of
             None \<Rightarrow> None
           | Some (Inl err, w) \<Rightarrow> Some (Returns (None, Some err), w)
           | Some (Inr hres, w) \<Rightarrow>
               (let res = NewResponse (Query req) (Host req)
                in case ReadAll (LimitedReader_Read (body_Read env)) (buffer_room env)
                          (LimitReader (RespBody hres) DefaultReadLimit) w of
                     None \<Rightarrow> None
                   | Some ((b, err), w) \<Rightarrow>
                       (let res = res\<lparr>ResBody := b\<rparr>
                        in case err of
                             Some e \<Rightarrow> Some (Returns (None, Some e), logError env e w)
                           | None \<Rightarrow>
                               Some (Returns
                                       (Some (DetectContentType (sniff env) res
                                                (Header_Get (RespHeader hres) ''Content-Type'')),
                                        None), w)))))"

definition Fetch :: "('w, 'c, 'b) env \<Rightarrow> Client \<Rightarrow> Request \<Rightarrow> 'w \<Rightarrow> 'w fetched" where
  "Fetch env c req w =
     (if URL req \<noteq> [] then fetchHTTP env c req w else fetchWhois env c req w)"

section \<open>The specification's reading of resolution\<close>

text \<open>
  The spec's algorithm, in its words: with the labels \<open>L[0..n-1]\<close> of the query, the
  candidate suffix for \<open>i\<close> from \<open>0\<close> to \<open>n-1\<close> is \<open>L[i..n-1]\<close> joined with
  dots, and the first candidate found in the zone table decides.
\<close>

definition candidate_suffixes :: "string \<Rightarrow> string list" where
  "candidate_suffixes q =
     (let L = Split q (CHR ''.'') in map (\<lambda>i. Join (drop i L) ''.'') [0..<length L])"

fun first_match :: "(string \<rightharpoonup> string) \<Rightarrow> string list \<Rightarrow> string option" where
  "first_match zones [] = None"
| "first_match zones (s # ss) = (case zones s of Some h \<Rightarrow> Some h | None \<Rightarrow> first_match zones ss)"

section \<open>Observing the calls the package makes\<close>

text \<open>
  To state which outside operations a run performs, an environment is wrapped so that every
  operation with an effect also appends a record of the call to a log kept beside the world.
  The wrapped operations return what the original ones return.
\<close>

datatype ('c, 'b) call =
    CallDialTimeout string string Duration
  | CallSocksDial socks_version string Duration string string
  | CallSetDeadline 'c time
  | CallWrite 'c bytes
  | CallRead 'c nat
  | CallClose 'c
  | CallDo Transport http_Request
  | CallBodyRead 'b nat
  | CallFprintf string "fmt_arg list"
  | CallDebugf string "fmt_arg list"

definition note_call ::
  "('c, 'b) call \<Rightarrow> ('c, 'b) call list \<Rightarrow> ('r \<times> 'w) option \<Rightarrow> ('r \<times> 'w \<times> ('c, 'b) call list) option" where
  "note_call x l res = map_option (\<lambda>(r, w). (r, (w, l @ [x]))) res"

definition logged :: "('w, 'c, 'b) env \<Rightarrow> ('w \<times> ('c, 'b) call list, 'c, 'b) env" where
  "logged env =
     \<lparr>url_Parse = url_Parse env,
      time_Now = (\<lambda>(w, l). time_Now env w),
      net_DialTimeout = (\<lambda>network address tmo (w, l).
         note_call (CallDialTimeout network address tmo) l
           (net_DialTimeout env network address tmo w)),
      socks_Dial = (\<lambda>v proxy tmo network address (w, l).
         note_call (CallSocksDial v proxy tmo network address) l
           (socks_Dial env v proxy tmo network address w)),
      conn_SetDeadline = (\<lambda>conn t (w, l).
         (fst (conn_SetDeadline env conn t w),
          (snd (conn_SetDeadline env conn t w), l @ [CallSetDeadline conn t]))),
      conn_Write = (\<lambda>conn b (w, l). note_call (CallWrite conn b) l (conn_Write env conn b w)),
      conn_Read = (\<lambda>conn p (w, l). note_call (CallRead conn p) l (conn_Read env conn p w)),
      conn_Close = (\<lambda>conn (w, l). (conn_Close env conn w, l @ [CallClose conn])),
      http_Do = (\<lambda>t h (w, l). note_call (CallDo t h) l (http_Do env t h w)),
      body_Read = (\<lambda>body p (w, l). note_call (CallBodyRead body p) l (body_Read env body p w)),
      stderr_Fprintf = (\<lambda>f args (w, l). (stderr_Fprintf env f args w, l @ [CallFprintf f args])),
      log_Debugf = (\<lambda>f args (w, l). (log_Debugf env f args w, l @ [CallDebugf f args])),
      buffer_room = buffer_room env,
      sniff = sniff env\<rparr>"

fun is_conn_call :: "('c, 'b) call \<Rightarrow> bool" where
  "is_conn_call (CallDialTimeout network address tmo) = True"
| "is_conn_call (CallSocksDial v proxy tmo network address) = True"
| "is_conn_call (CallSetDeadline conn t) = True"
| "is_conn_call (CallWrite conn b) = True"
| "is_conn_call (CallRead conn p) = True"
| "is_conn_call (CallClose conn) = True"
| "is_conn_call _ = False"



section \<open>A simulated world with a silent peer\<close>

text \<open>
  One world to run the package in: a peer that accepts a connection after
  \<open>connect_time\<close>, sends the bytes \<open>incoming\<close> and then either closes the stream
  (\<open>closes\<close>) or stays silent for ever. It follows the documentation of package
  \<open>net\<close>: \<open>DialTimeout\<close> gives up with a timeout error once its (non-zero) timeout has
  passed and has no limit when the timeout is zero; a deadline is an absolute time after
  which reads and writes fail with a timeout error instead of blocking; a read with no
  deadline on a silent peer never returns. A write is taken by the kernel at once. When
  there is an HTTP server, it answers with the same bytes as the body, and a body that
  stalls ends in a timeout error. \<open>sim_url_Parse\<close>
  is the part of \<open>url.Parse\<close> that finds the scheme and the host: a string that starts
  with a colon has no scheme and is an error.
\<close>

record sim =
  clock :: time
  deadline :: "time option"
  connect_time :: Duration
  incoming :: bytes
  closes :: bool
  http_server :: bool

definition timeout_error :: error where
  "timeout_error = netError True True ''i/o timeout''"

fun getScheme :: "string \<Rightarrow> nat \<Rightarrow> string \<Rightarrow> error + (string \<times> string)" where
  "getScheme rawurl i [] = Inr ([], rawurl)"
| "getScheme rawurl i (c # cs) =
     (let n = (of_char c :: nat) in
      if (97 \<le> n \<and> n \<le> 122) \<or> (65 \<le> n \<and> n \<le> 90) then getScheme rawurl (i + 1) cs
      else if (48 \<le> n \<and> n \<le> 57) \<or> c = CHR ''+'' \<or> c = CHR ''-'' \<or> c = CHR ''.'' then
        (if i = 0 then Inr ([], rawurl) else getScheme rawurl (i + 1) cs)
      else if c = CHR '':'' then
        (if i = 0 then Inl (urlError ''missing protocol scheme'')
         else Inr (take i rawurl, drop (i + 1) rawurl))
      else Inr ([], rawurl))"

definition sim_url_Parse :: "string \<Rightarrow> error + url" where
  "sim_url_Parse rawurl =
     (case getScheme rawurl 0 rawurl of
        Inl err \<Rightarrow> Inl err
      | Inr (scheme, rest) \<Rightarrow>
          Inr \<lparr>Scheme = ToLower scheme,
               UHost = (if take 2 rest = ''//''
                        then takeWhile (\<lambda>c. c \<noteq> CHR ''/'') (drop 2 rest) else [])\<rparr>)"

definition sim_env :: "(sim, unit, unit) env" where
  "sim_env =
     \<lparr>url_Parse = sim_url_Parse,
      time_Now = clock,
      net_DialTimeout = (\<lambda>network address tmo w.
         if tmo \<noteq> 0 \<and> tmo < connect_time w
         then Some (Inl timeout_error, w\<lparr>clock := clock w + max 0 tmo\<rparr>)
         else Some (Inr (), w\<lparr>clock := clock w + connect_time w, deadline := None\<rparr>)),
      socks_Dial = (\<lambda>v proxy tmo network address w.
         Some (Inl (errorString ''no proxy''), w)),
      conn_SetDeadline = (\<lambda>conn t w. (None, w\<lparr>deadline := Some t\<rparr>)),
      conn_Write = (\<lambda>conn b w.
         case deadline w of
           None \<Rightarrow> Some ((length b, None), w)
         | Some d \<Rightarrow>
             if d \<le> clock w then Some ((0, Some timeout_error), w)
             else Some ((length b, None), w)),
      conn_Read = (\<lambda>conn p w.
         if (case deadline w of None \<Rightarrow> False | Some d \<Rightarrow> d \<le> clock w)
         then Some (([], Some timeout_error), w)
         else if incoming w \<noteq> []
         then Some ((take p (incoming w), None), w\<lparr>incoming := drop p (incoming w)\<rparr>)
         else if closes w then Some (([], Some EOF), w)
         else (case deadline w of
                 None \<Rightarrow> None
               | Some d \<Rightarrow> Some (([], Some timeout_error), w\<lparr>clock := d\<rparr>))),
      conn_Close = (\<lambda>conn w. w),
      http_Do = (\<lambda>t h w.
         if http_server w
         then Some (Inr \<lparr>RespHeader = [(''Content-Type'', [''text/html''])], RespBody = ()\<rparr>, w)
         else Some (Inl (errorString ''connection refused''), w)),
      body_Read = (\<lambda>body p w.
         if incoming w \<noteq> []
         then Some ((take p (incoming w), None), w\<lparr>incoming := drop p (incoming w)\<rparr>)
         else if closes w then Some (([], Some EOF), w)
         else Some (([], Some timeout_error), w)),
      stderr_Fprintf = (\<lambda>f args w. w),
      log_Debugf = (\<lambda>f args w. w),
      buffer_room = (\<lambda>n. 512),
      sniff = (\<lambda>b. ''text/plain'')\<rparr>"

section \<open>The contract of a reader\<close>

text \<open>
  \<open>io.Reader\<close>: a call of \<open>Read\<close> returns at most as many bytes as the buffer it was
  given can hold.
\<close>

definition reader_contract :: "('r \<Rightarrow> nat \<Rightarrow> 'w \<Rightarrow> ((bytes \<times> error option) \<times> 'w) option) \<Rightarrow> bool" where
  "reader_contract rd \<longleftrightarrow> (\<forall>r p w data err w'. rd r p w = Some ((data, err), w') \<longrightarrow> length data \<le> p)"

section \<open>Auxiliary notions for the proofs\<close>

text \<open>
  \<open>log_grows Q s s'\<close>: from \<open>s\<close> to \<open>s'\<close> the log was extended by calls that all
  satisfy \<open>Q\<close>. \<open>sim_client\<close> is the client built without a proxy and with a timeout
  of ten time units in the simulated world.
\<close>

definition log_grows :: "(('c, 'b) call \<Rightarrow> bool) \<Rightarrow> 'w \<times> ('c, 'b) call list \<Rightarrow> 'w \<times> ('c, 'b) call list \<Rightarrow> bool" where
  "log_grows Q s s' \<longleftrightarrow> (\<exists>ext. snd s' = snd s @ ext \<and> (\<forall>x \<in> set ext. Q x))"

definition sim_client :: Client where
  "sim_client =
     fst (NewClient sim_env 10
            \<lparr>clock = 0, deadline = None, connect_time = 1, incoming = [], closes = True,
             http_server = True\<rparr>)"

section \<open>Properties of resolution\<close>

declare Resolve_loop.simps [simp del]

lemma IndexByte_Some: "IndexByte s c = Some m \<Longrightarrow> s = take m s @ c # drop (m + 1) s \<and> c \<notin> set (take m s)"
  by (induction s arbitrary: m) (auto split: if_splits)

lemma IndexByte_None: "IndexByte s c = None \<longleftrightarrow> c \<notin> set s"
  by (induction s) auto

lemma genSplit_nonempty: "genSplit s c k \<noteq> []"
  by (cases k) (auto split: option.splits)

lemma Join_Cons: "xs \<noteq> [] \<Longrightarrow> Join (x # xs) sep = x @ sep @ Join xs sep"
  by (cases xs) auto

lemma Join_genSplit: "Join (genSplit s c k) [c] = s"
proof (induction k arbitrary: s)
  case 0 show ?case by simp
next
  case (Suc k)
  show ?case
  proof (cases "IndexByte s c")
    case None then show ?thesis by simp
  next
    case (Some m)
    from IndexByte_Some[OF Some] have "take m s @ c # drop (m + 1) s = s" by simp
    with Some Suc show ?thesis by (simp add: Join_Cons genSplit_nonempty)
  qed
qed

lemma Split_nonempty: "Split q c \<noteq> []"
  by (simp add: Split_def SplitN_def genSplit_nonempty)

lemma Join_Split: "Join (Split q c) [c] = q"
  by (simp add: Split_def SplitN_def Join_genSplit)

lemma Resolve_loop_done: "Resolve_loop zones labels i req True = (req, True)"
  by (subst Resolve_loop.simps) simp

lemma Resolve_loop_first_match:
  "Resolve_loop zones labels i req False =
     (case first_match zones (map (\<lambda>j. Join (drop j labels) ''.'') [i..<length labels]) of
        None \<Rightarrow> (if i < length labels then req\<lparr>Host := []\<rparr> else req, False)
      | Some h \<Rightarrow> (req\<lparr>Host := h\<rparr>, True))"
proof (induction "length labels - i" arbitrary: i req)
  case 0
  then show ?case by (subst Resolve_loop.simps) simp
next
  case (Suc n)
  then have lt: "i < length labels" and n: "n = length labels - (i + 1)" by auto
  have up: "[i..<length labels] = i # [i + 1..<length labels]"
    using lt by (simp add: upt_conv_Cons)
  show ?case
  proof (cases "zones (Join (drop i labels) ''.'')")
    case None
    then show ?thesis
      using lt Suc.hyps(1)[OF n, of "req\<lparr>Host := []\<rparr>"]
      by (subst Resolve_loop.simps) (simp add: up zones_lookup_def split: option.splits)
  next
    case (Some h)
    then show ?thesis
      using lt
      by (subst Resolve_loop.simps) (simp add: up zones_lookup_def Resolve_loop_done)
  qed
qed

lemma strict_suffix_Join: "sep \<noteq> [] \<Longrightarrow> Suc i < length L \<Longrightarrow> strict_suffix (Join (drop (Suc i) L) sep) (Join (drop i L) sep)"
proof -
  assume that: "sep \<noteq> []"
  assume a: "Suc i < length L"
  then have "drop i L = L ! i # drop (Suc i) L" by (simp add: Cons_nth_drop_Suc)
  moreover have "drop (Suc i) L \<noteq> []" using a by simp
  ultimately have "Join (drop i L) sep = L ! i @ sep @ Join (drop (Suc i) L) sep"
    by (simp add: Join_Cons)
  then show ?thesis
    using that by (auto simp: strict_suffix_def suffix_def)
qed

lemma sorted_candidates:
  "sorted_wrt (\<lambda>a b. strict_suffix b a) (map (\<lambda>i. Join (drop i L) ''.'') [0..<length L])"
proof -
  have step: "strict_suffix (Join (drop j L) ''.'') (Join (drop i L) ''.'')"
    if "i < j" "j < length L" for i j
    using that
  proof (induction j)
    case 0 then show ?case by simp
  next
    case (Suc j)
    have s: "strict_suffix (Join (drop (Suc j) L) ''.'') (Join (drop j L) ''.'')"
      using Suc.prems by (intro strict_suffix_Join) simp_all
    show ?case
    proof (cases "i = j")
      case True with s show ?thesis by simp
    next
      case False
      with Suc have "strict_suffix (Join (drop j L) ''.'') (Join (drop i L) ''.'')" by simp
      with s show ?thesis by (meson strict_suffix_def suffix_order.dual_order.strict_trans suffix_order.less_le)
    qed
  qed
  show ?thesis
    by (simp add: sorted_wrt_iff_nth_less step)
qed

lemma hd_candidates: "hd (candidate_suffixes q) = q"
  using Split_nonempty[of q "CHR ''.''"] Join_Split[of q "CHR ''.''"]
  by (simp add: candidate_suffixes_def Let_def hd_map upt_conv_Cons)

lemma last_candidates: "last (candidate_suffixes q) = last (Split q (CHR ''.''))"
proof -
  let ?L = "Split q (CHR ''.'')"
  have ne: "?L \<noteq> []" by (rule Split_nonempty)
  then have "drop (length ?L - 1) ?L = [last ?L]"
    by (metis append_butlast_last_id append_eq_conv_conj length_butlast)
  with ne show ?thesis
    by (simp add: candidate_suffixes_def Let_def last_map last_upt)
qed


lemma Resolve_first_match:
  "Resolve zones servers defaultServer q =
     (case first_match zones (candidate_suffixes q) of
        None \<Rightarrow>
          Returns ((NewRequest q)\<lparr>Host := []\<rparr>,
                   Some (errorString (''No whois server found for '' @ q)))
      | Some h \<Rightarrow>
          (case (case servers h of None \<Rightarrow> defaultServer | Some s \<Rightarrow> s)
                  ((NewRequest q)\<lparr>Host := h\<rparr>) of
             Panics p \<Rightarrow> Panics p
           | Returns (req', e) \<Rightarrow> Returns (req', None)))"
  using Split_nonempty[of q "CHR ''.''"]
  by (simp add: Resolve_def Resolve_loop_first_match candidate_suffixes_def Let_def
           split: option.splits)

lemma candidates_abc: "candidate_suffixes ''a.b.c'' = [''a.b.c'', ''b.c'', ''c'']"
  by (simp add: candidate_suffixes_def Split_def SplitN_def Count_def Let_def upt_conv_Cons)

text \<open>
  Claim C1. For every query, \<open>Resolve\<close> splits it on dots and tries the candidate suffixes
  in order, from the whole query (\<open>i = 0\<close>) to the last label alone, each candidate a
  proper suffix of the ones before it; the host of the request handed to the resolver is
  the zone-table entry of the first candidate that has one. For the query \<open>a.b.c\<close> with
  both \<open>b.c\<close> and \<open>c\<close> registered, the entry of \<open>b.c\<close> is used.
\<close>

theorem Resolve_most_specific_first:
  "Resolve zones servers defaultServer q =
     (case first_match zones (candidate_suffixes q) of
        None \<Rightarrow>
          Returns ((NewRequest q)\<lparr>Host := []\<rparr>,
                   Some (errorString (''No whois server found for '' @ q)))
      | Some h \<Rightarrow>
          (case (case servers h of None \<Rightarrow> defaultServer | Some s \<Rightarrow> s)
                  ((NewRequest q)\<lparr>Host := h\<rparr>) of
             Panics p \<Rightarrow> Panics p
           | Returns (req', e) \<Rightarrow> Returns (req', None)))
   \<and> hd (candidate_suffixes q) = q
   \<and> last (candidate_suffixes q) = last (Split q (CHR ''.''))
   \<and> sorted_wrt (\<lambda>a b. strict_suffix b a) (candidate_suffixes q)
   \<and> (zones ''a.b.c'' = None \<and> zones ''b.c'' = Some h1 \<and> zones ''c'' = Some h2
        \<and> servers h1 = Some srv \<longrightarrow>
      Resolve zones servers defaultServer ''a.b.c''
        = (case srv \<lparr>Query = ''a.b.c'', Host = h1, Body = [], URL = []\<rparr> of
             Panics p \<Rightarrow> Panics p
           | Returns (req', e) \<Rightarrow> Returns (req', None)))"
proof -
  have ex: "Resolve zones servers defaultServer ''a.b.c''
        = (case srv \<lparr>Query = ''a.b.c'', Host = h1, Body = [], URL = []\<rparr> of
             Panics p \<Rightarrow> Panics p
           | Returns (req', e) \<Rightarrow> Returns (req', None))"
    if "zones ''a.b.c'' = None" "zones ''b.c'' = Some h1" "servers h1 = Some srv"
    using that by (simp add: Resolve_first_match candidates_abc NewRequest_def)
  have srt: "sorted_wrt (\<lambda>a b. strict_suffix b a) (candidate_suffixes q)"
    unfolding candidate_suffixes_def Let_def by (rule sorted_candidates)
  show ?thesis
    using ex srt by (simp add: hd_candidates last_candidates Resolve_first_match)
qed

theorem Resolve_most_specific_first_witness:
  "Resolve (map_of [(''b.c'', ''whois.bc''), (''c'', ''whois.c'')])
           (map_of [(''whois.bc'', Cenpac_Resolve)]) Cenpac_Resolve ''a.b.c''
     = Returns (\<lparr>Query = ''a.b.c'', Host = ''whois.bc'', Body = [],
                  URL = ''http://cenpac.net.nr/dns/whois.html?subdomain=a&tld=b.c''\<rparr>, None)"
proof -
  let ?zones = "map_of [(''b.c'', ''whois.bc''), (''c'', ''whois.c'')]"
  let ?servers = "map_of [(''whois.bc'', Cenpac_Resolve)]"
  have hyp: "?zones ''a.b.c'' = None \<and> ?zones ''b.c'' = Some ''whois.bc''
             \<and> ?zones ''c'' = Some ''whois.c'' \<and> ?servers ''whois.bc'' = Some Cenpac_Resolve"
    by simp
  have "Resolve ?zones ?servers Cenpac_Resolve ''a.b.c''
        = (case Cenpac_Resolve \<lparr>Query = ''a.b.c'', Host = ''whois.bc'', Body = [], URL = []\<rparr> of
             Panics p \<Rightarrow> Panics p
           | Returns (req', e) \<Rightarrow> Returns (req', None))"
    using hyp
      Resolve_most_specific_first
        [of ?zones ?servers Cenpac_Resolve "''a.b.c''" "''whois.bc''" "''whois.c''" Cenpac_Resolve]
    by blast
  then show ?thesis
    by (simp add: Cenpac_Resolve_def SplitN_def Encode_def QueryEscape_def escape_byte_def
          shouldEscape_def)
qed

lemma first_match_None: "first_match zones cs = None \<longleftrightarrow> (\<forall>s \<in> set cs. zones s = None)"
  by (induction cs) (auto split: option.splits)

text \<open>
  Claim C4. When no candidate suffix of the query has a zone-table entry, \<open>Resolve\<close>
  returns a non-nil error together with the request built so far, whose \<open>Host\<close> is the
  empty string.
\<close>

theorem Resolve_no_match_fails:
  assumes "\<forall>i < length (Split q (CHR ''.'')). zones (Join (drop i (Split q (CHR ''.''))) ''.'') = None"
  shows "\<exists>req. Resolve zones servers defaultServer q =
                 Returns (req, Some (errorString (''No whois server found for '' @ q)))
               \<and> Host req = [] \<and> Query req = q"
proof -
  have "first_match zones (candidate_suffixes q) = None"
    using assms by (auto simp: first_match_None candidate_suffixes_def Let_def)
  then show ?thesis
    by (simp add: Resolve_first_match NewRequest_def)
qed

theorem Resolve_no_match_fails_witness:
  "\<exists>req. Resolve (map_of [(''com'', ''whois.verisign-grs.com'')]) (map_of []) Cenpac_Resolve
            ''x.nonexistent'' =
           Returns (req, Some (errorString (''No whois server found for '' @ ''x.nonexistent'')))
         \<and> Host req = [] \<and> Query req = ''x.nonexistent''"
proof -
  have sp: "Split ''x.nonexistent'' (CHR ''.'') = [''x'', ''nonexistent'']"
    by (simp add: Split_def SplitN_def Count_def)
  have "\<forall>i < length (Split ''x.nonexistent'' (CHR ''.'')).
          map_of [(''com'', ''whois.verisign-grs.com'')]
            (Join (drop i (Split ''x.nonexistent'' (CHR ''.''))) ''.'') = None"
    by (simp add: sp less_Suc_eq)
  from Resolve_no_match_fails
         [where servers = "map_of []" and defaultServer = Cenpac_Resolve, OF this]
  show ?thesis .
qed

section \<open>Properties of the Cenpac resolver\<close>

lemma SplitN_2:
  "SplitN s c 2 = (case IndexByte s c of None \<Rightarrow> [s] | Some m \<Rightarrow> [take m s, drop (m + 1) s])"
proof (cases s)
  case Nil then show ?thesis by (simp add: SplitN_def)
next
  case (Cons x xs)
  then have "min (nat 2) (length s + 1) - 1 = Suc 0" by simp
  then show ?thesis by (simp add: SplitN_def split: option.splits)
qed

lemma Cenpac_Resolve_dot:
  assumes "IndexByte (Query req) (CHR ''.'') = Some m"
  shows "Cenpac_Resolve req =
           Returns (req\<lparr>URL := ''http://cenpac.net.nr/dns/whois.html?subdomain=''
                              @ QueryEscape (take m (Query req)) @ ''&tld=''
                              @ QueryEscape (drop (m + 1) (Query req)),
                        Body := []\<rparr>, None)"
  using assms by (simp add: Cenpac_Resolve_def SplitN_2 Encode_def QueryEscape_def escape_byte_def shouldEscape_def)

lemma candidates_nr: "candidate_suffixes ''nr'' = [''nr'']"
  by (simp add: candidate_suffixes_def Split_def SplitN_def Count_def Let_def)

text \<open>
  Claim C10. \<open>Cenpac.Resolve\<close> reads the second element of the query split at its first
  dot without checking the length: on a request whose query has no dot the index is out of
  range and the call panics, and on a query with a dot it returns. \<open>Resolve\<close> reaches the
  panic on a dotless query whose zone is served by Cenpac.
\<close>

theorem Cenpac_Resolve_needs_dot:
  "(CHR ''.'' \<notin> set (Query req) \<longrightarrow> Cenpac_Resolve req = Panics (IndexOutOfRange 1 1))
   \<and> (CHR ''.'' \<in> set (Query req) \<longrightarrow> (\<exists>r. Cenpac_Resolve req = Returns r))
   \<and> (CHR ''.'' \<notin> set q \<and> first_match zones (candidate_suffixes q) = Some h
        \<and> servers h = Some Cenpac_Resolve \<longrightarrow>
      Resolve zones servers defaultServer q = Panics (IndexOutOfRange 1 1))"
proof -
  have a: "CHR ''.'' \<notin> set (Query r) \<Longrightarrow> Cenpac_Resolve r = Panics (IndexOutOfRange 1 1)" for r
    by (simp add: Cenpac_Resolve_def SplitN_2 Let_def IndexByte_None[symmetric])
  have b: "CHR ''.'' \<in> set (Query req) \<Longrightarrow> \<exists>r. Cenpac_Resolve req = Returns r"
    by (cases "IndexByte (Query req) (CHR ''.'')")
       (auto simp: IndexByte_None Cenpac_Resolve_dot)
  have c: "CHR ''.'' \<notin> set q \<Longrightarrow> first_match zones (candidate_suffixes q) = Some h
        \<Longrightarrow> servers h = Some Cenpac_Resolve \<Longrightarrow>
      Resolve zones servers defaultServer q = Panics (IndexOutOfRange 1 1)"
    using a[of "(NewRequest q)\<lparr>Host := h\<rparr>"]
    by (simp add: Resolve_first_match NewRequest_def)
  from a b c show ?thesis by blast
qed

theorem Cenpac_Resolve_needs_dot_witness:
  "Cenpac_Resolve \<lparr>Query = ''nr'', Host = ''cenpac.net.nr'', Body = [], URL = []\<rparr>
     = Panics (IndexOutOfRange 1 1)
   \<and> (\<exists>r. Cenpac_Resolve \<lparr>Query = ''foo.nr'', Host = ''cenpac.net.nr'', Body = [], URL = []\<rparr>
            = Returns r)
   \<and> Resolve (map_of [(''nr'', ''cenpac.net.nr'')]) (Cenpac_init (map_of [])) Cenpac_Resolve ''nr''
     = Panics (IndexOutOfRange 1 1)"
proof -
  have h: "CHR ''.'' \<notin> set ''nr''
        \<and> first_match (map_of [(''nr'', ''cenpac.net.nr'')]) (candidate_suffixes ''nr'')
            = Some ''cenpac.net.nr''
        \<and> Cenpac_init (map_of []) ''cenpac.net.nr'' = Some Cenpac_Resolve"
    by (simp add: candidates_nr Cenpac_init_def)
  note c = mp[OF Cenpac_Resolve_needs_dot
                   [where q = "''nr''" and servers = "Cenpac_init (map_of [])",
                    THEN conjunct2, THEN conjunct2] h]
  from Cenpac_Resolve_needs_dot
          [of "\<lparr>Query = ''nr'', Host = ''cenpac.net.nr'', Body = [], URL = []\<rparr>"]
  have a: "Cenpac_Resolve \<lparr>Query = ''nr'', Host = ''cenpac.net.nr'', Body = [], URL = []\<rparr>
     = Panics (IndexOutOfRange 1 1)" by simp
  from Cenpac_Resolve_needs_dot
          [of "\<lparr>Query = ''foo.nr'', Host = ''cenpac.net.nr'', Body = [], URL = []\<rparr>"]
  have b: "\<exists>r. Cenpac_Resolve \<lparr>Query = ''foo.nr'', Host = ''cenpac.net.nr'', Body = [], URL = []\<rparr>
            = Returns r" by simp
  from a b c show ?thesis by blast
qed

lemma Cenpac_eval:
  "Cenpac_Resolve \<lparr>Query = ''foo.net.nr'', Host = h, Body = b, URL = u\<rparr>
     = Returns (\<lparr>Query = ''foo.net.nr'', Host = h, Body = [],
                  URL = ''http://cenpac.net.nr/dns/whois.html?subdomain=foo&tld=net.nr''\<rparr>, None)"
  by (simp add: Cenpac_Resolve_def SplitN_def Encode_def QueryEscape_def escape_byte_def
        shouldEscape_def)

lemma candidates_foo: "candidate_suffixes ''foo.net.nr'' = [''foo.net.nr'', ''net.nr'', ''nr'']"
  by (simp add: candidate_suffixes_def Split_def SplitN_def Count_def Let_def upt_conv_Cons)

text \<open>
  Claim C6 as stated: for the query \<open>foo.net.nr\<close> the Cenpac resolver would give the URL
  parameters \<open>subdomain=foo\<close> and \<open>tld=nr\<close>. The query is cut at its first dot only,
  so the second parameter is \<open>tld=net.nr\<close>.
\<close>

theorem Cenpac_foo_net_nr_counterexample:
  "Resolve (map_of [(''nr'', ''cenpac.net.nr'')]) (Cenpac_init (map_of [])) Cenpac_Resolve
       ''foo.net.nr''
     = Returns (\<lparr>Query = ''foo.net.nr'', Host = ''cenpac.net.nr'', Body = [],
                  URL = ''http://cenpac.net.nr/dns/whois.html?subdomain=foo&tld=net.nr''\<rparr>, None)
   \<and> Resolve (map_of [(''nr'', ''cenpac.net.nr'')]) (Cenpac_init (map_of [])) Cenpac_Resolve
       ''foo.net.nr''
     \<noteq> Returns (\<lparr>Query = ''foo.net.nr'', Host = ''cenpac.net.nr'', Body = [],
                  URL = ''http://cenpac.net.nr/dns/whois.html?subdomain=foo&tld=nr''\<rparr>, None)"
  by (simp add: Resolve_first_match candidates_foo Cenpac_init_def NewRequest_def Cenpac_eval)

text \<open>
  Claim C6, amended. For the query \<open>foo.net.nr\<close> resolved to a host whose registered
  resolver is Cenpac's, the request has an empty body and the URL
  \<open>http://cenpac.net.nr/dns/whois.html?subdomain=foo&tld=net.nr\<close>: the \<open>tld\<close>
  parameter is everything after the first dot.
\<close>

theorem Cenpac_foo_net_nr:
  assumes "first_match zones (candidate_suffixes ''foo.net.nr'') = Some h"
      and "servers h = Some Cenpac_Resolve"
  shows "Resolve zones servers defaultServer ''foo.net.nr''
           = Returns (\<lparr>Query = ''foo.net.nr'', Host = h, Body = [],
                        URL = ''http://cenpac.net.nr/dns/whois.html?subdomain=foo&tld=net.nr''\<rparr>,
                      None)"
  using assms by (simp add: Resolve_first_match NewRequest_def Cenpac_eval)

theorem Cenpac_foo_net_nr_witness:
  "Resolve (map_of [(''net.nr'', ''cenpac.net.nr''), (''nr'', ''cenpac.net.nr'')])
       (Cenpac_init (map_of [])) (\<lambda>req. Returns (req, None)) ''foo.net.nr''
     = Returns (\<lparr>Query = ''foo.net.nr'', Host = ''cenpac.net.nr'', Body = [],
                  URL = ''http://cenpac.net.nr/dns/whois.html?subdomain=foo&tld=net.nr''\<rparr>, None)"
proof -
  have a: "first_match (map_of [(''net.nr'', ''cenpac.net.nr''), (''nr'', ''cenpac.net.nr'')])
             (candidate_suffixes ''foo.net.nr'') = Some ''cenpac.net.nr''"
    by (simp add: candidates_foo)
  have b: "Cenpac_init (map_of []) ''cenpac.net.nr'' = Some Cenpac_Resolve"
    by (simp add: Cenpac_init_def)
  show ?thesis
    by (rule Cenpac_foo_net_nr[where servers = "Cenpac_init (map_of [])", OF a b])
qed

section \<open>Properties of Fetch\<close>

lemma LimitedReader_Read_bound:
  assumes "reader_contract rd" "LimitedReader_Read rd l p w = Some (((data, err), l'), w')"
  shows "int (length data) + max 0 (N l') \<le> max 0 (N l)"
proof (cases "N l \<le> 0")
  case True
  with assms(2) show ?thesis by (simp add: LimitedReader_Read_def)
next
  case False
  let ?p = "if int p > N l then nat (N l) else p"
  from False assms(2) obtain w1 where
    rd: "rd (R l) ?p w = Some ((data, err), w1)" and l': "l' = l\<lparr>N := N l - int (length data)\<rparr>"
    by (auto simp: LimitedReader_Read_def Let_def split: option.splits if_splits)
  from assms(1) rd have "length data \<le> ?p" unfolding reader_contract_def by blast
  with False have "int (length data) \<le> N l" by (auto split: if_splits)
  with l' False show ?thesis by simp
qed

lemma ReadAll_loop_measure:
  fixes rd :: "('s, 'w) reader"
  assumes run: "ReadAll_loop rd room r b w = Some y"
      and step: "\<And>r p w data err r' w'. rd r p w = Some (((data, err), r'), w') \<Longrightarrow>
                   int (length data) + m r' \<le> m r"
      and nonneg: "\<And>r. 0 \<le> m r"
  shows "int (length (fst (fst y))) \<le> int (length b) + m r"
proof -
  let ?P = "\<lambda>(rd' :: ('s, 'w) reader) (room :: nat \<Rightarrow> nat) (r :: 's) (b :: bytes) (w :: 'w) (y :: (bytes \<times> error option) \<times> 'w).
              rd' = rd \<longrightarrow> int (length (fst (fst y))) \<le> int (length b) + m r"
  have "?P rd room r b w y"
  proof (rule ReadAll_loop.raw_induct[where P = ?P, OF _ run], intro impI)
    fix loop and rd' :: "('s, 'w) reader" and room :: "nat \<Rightarrow> nat" and r
      and b :: bytes and w :: 'w and y
    assume IH: "\<And>room r b w ba y. loop room r b w ba = Some y \<Longrightarrow> ?P room r b w ba y"
    assume eq: "(case rd' r (room (length b)) w of
                   None \<Rightarrow> None
                 | Some (((data, None), r'), w') \<Rightarrow> loop rd' room r' (b @ data) w'
                 | Some (((data, Some e), r'), w') \<Rightarrow>
                     Some ((b @ data, if e = EOF then None else Some e), w')) = Some y"
    assume rd': "rd' = rd"
    from eq obtain data err r' w' where
      rd: "rd' r (room (length b)) w = Some (((data, err), r'), w')"
      by (auto split: option.splits)
    from step rd rd' have st: "int (length data) + m r' \<le> m r" by blast
    show "int (length (fst (fst y))) \<le> int (length b) + m r"
    proof (cases err)
      case None
      with rd eq have "loop rd' room r' (b @ data) w' = Some y" by simp
      from IH[OF this] rd' st show ?thesis by simp
    next
      case (Some e)
      with rd eq have "fst (fst y) = b @ data" by auto
      with nonneg[of r'] st show ?thesis by simp
    qed
  qed
  then show ?thesis by simp
qed

lemma ReadAll_loop_limit:
  assumes "reader_contract rd"
      and "ReadAll_loop (LimitedReader_Read rd) room l b w = Some ((b', err), w')"
  shows "int (length b') \<le> int (length b) + max 0 (N l)"
  using ReadAll_loop_measure[OF assms(2), where m = "\<lambda>l. max 0 (N l)"]
        LimitedReader_Read_bound[OF assms(1)]
  by fastforce

lemma ReadAll_limit:
  assumes "reader_contract rd"
      and "ReadAll (LimitedReader_Read rd) room (LimitReader r DefaultReadLimit) w = Some ((b, err), w')"
  shows "length b \<le> 2 ^ 20"
  using ReadAll_loop_limit[OF assms(1) assms(2)[unfolded ReadAll_def]]
  by (simp add: LimitReader_def DefaultReadLimit_def)


lemma fetchWhois_body:
  assumes "fetchWhois env c req w = Some (Returns (Some res, err), w')"
  shows "\<exists>conn w1 w2. ReadAll (LimitedReader_Read (conn_Read env)) (buffer_room env)
                 (LimitReader conn DefaultReadLimit) w1 = Some ((ResBody res, None), w2)"
  using assms
  by (auto simp: fetchWhois_def Let_def DetectContentType_def
           split: option.splits go.splits sum.splits prod.splits) blast+

lemma fetchHTTP_body:
  assumes "fetchHTTP env c req w = Some (Returns (Some res, err), w')"
  shows "\<exists>body w1 w2. ReadAll (LimitedReader_Read (body_Read env)) (buffer_room env)
                 (LimitReader body DefaultReadLimit) w1 = Some ((ResBody res, None), w2)"
  using assms
  by (auto simp: fetchHTTP_def Let_def DetectContentType_def
           split: option.splits go.splits sum.splits prod.splits) blast+

lemma Fetch_body_bound:
  assumes "reader_contract (conn_Read env)" and "reader_contract (body_Read env)"
      and "Fetch env c req w = Some (Returns (Some res, err), w')"
  shows "length (ResBody res) \<le> 2 ^ 20"
proof (cases "URL req \<noteq> []")
  case True
  with assms(3) have "fetchHTTP env c req w = Some (Returns (Some res, err), w')"
    by (simp add: Fetch_def)
  from fetchHTTP_body[OF this] ReadAll_limit[OF assms(2)] show ?thesis by blast
next
  case False
  with assms(3) have "fetchWhois env c req w = Some (Returns (Some res, err), w')"
    by (simp add: Fetch_def)
  from fetchWhois_body[OF this] ReadAll_limit[OF assms(1)] show ?thesis by blast
qed

lemma ReadAll_loop_rel:
  fixes rd :: "('s, 'w) reader"
  assumes run: "ReadAll_loop rd room r b w = Some y"
      and step: "\<And>r p w res w'. rd r p w = Some (res, w') \<Longrightarrow> Rel w w'"
      and refl: "\<And>w. Rel w w"
      and trans: "\<And>a b c. Rel a b \<Longrightarrow> Rel b c \<Longrightarrow> Rel a c"
  shows "Rel w (snd y)"
proof -
  let ?P = "\<lambda>(rd' :: ('s, 'w) reader) (room :: nat \<Rightarrow> nat) (r :: 's) (b :: bytes) (w :: 'w)
              (y :: (bytes \<times> error option) \<times> 'w). rd' = rd \<longrightarrow> Rel w (snd y)"
  have "?P rd room r b w y"
  proof (rule ReadAll_loop.raw_induct[where P = ?P, OF _ run], intro impI)
    fix loop and rd' :: "('s, 'w) reader" and room :: "nat \<Rightarrow> nat" and r
      and b :: bytes and w :: 'w and y
    assume IH: "\<And>room r b w ba y. loop room r b w ba = Some y \<Longrightarrow> ?P room r b w ba y"
    assume eq: "(case rd' r (room (length b)) w of
                   None \<Rightarrow> None
                 | Some (((data, None), r'), w') \<Rightarrow> loop rd' room r' (b @ data) w'
                 | Some (((data, Some e), r'), w') \<Rightarrow>
                     Some ((b @ data, if e = EOF then None else Some e), w')) = Some y"
    assume rd': "rd' = rd"
    from eq obtain data err r' w' where
      rd: "rd' r (room (length b)) w = Some (((data, err), r'), w')"
      by (auto split: option.splits)
    from step rd rd' have st: "Rel w w'" by blast
    show "Rel w (snd y)"
    proof (cases err)
      case None
      with rd eq have "loop rd' room r' (b @ data) w' = Some y" by simp
      from IH[OF this] rd' st trans show ?thesis by blast
    next
      case (Some e)
      with rd eq have "snd y = w'" by auto
      with st show ?thesis by simp
    qed
  qed
  then show ?thesis by simp
qed

lemma log_grows_refl: "log_grows Q s s"
  by (simp add: log_grows_def)

lemma log_grows_trans: "log_grows Q a b \<Longrightarrow> log_grows Q b c \<Longrightarrow> log_grows Q a c"
  by (fastforce simp: log_grows_def)

lemma logged_fields:
  "url_Parse (logged env) = url_Parse env"
  "buffer_room (logged env) = buffer_room env"
  "sniff (logged env) = sniff env"
  "time_Now (logged env) (w, l) = time_Now env w"
  "net_DialTimeout (logged env) network address tmo (w, l) =
     note_call (CallDialTimeout network address tmo) l (net_DialTimeout env network address tmo w)"
  "socks_Dial (logged env) v proxy tmo network address (w, l) =
     note_call (CallSocksDial v proxy tmo network address) l
       (socks_Dial env v proxy tmo network address w)"
  "conn_SetDeadline (logged env) conn t (w, l) =
     (fst (conn_SetDeadline env conn t w),
      (snd (conn_SetDeadline env conn t w), l @ [CallSetDeadline conn t]))"
  "conn_Write (logged env) conn b (w, l) = note_call (CallWrite conn b) l (conn_Write env conn b w)"
  "conn_Read (logged env) conn p (w, l) = note_call (CallRead conn p) l (conn_Read env conn p w)"
  "conn_Close (logged env) conn (w, l) = (conn_Close env conn w, l @ [CallClose conn])"
  "http_Do (logged env) tr h (w, l) = note_call (CallDo tr h) l (http_Do env tr h w)"
  "body_Read (logged env) body p (w, l) = note_call (CallBodyRead body p) l (body_Read env body p w)"
  "stderr_Fprintf (logged env) f args (w, l) = (stderr_Fprintf env f args w, l @ [CallFprintf f args])"
  "log_Debugf (logged env) f args (w, l) = (log_Debugf env f args w, l @ [CallDebugf f args])"
  by (simp_all add: logged_def)

lemma note_call_Some:
  "note_call x l res = Some (r, (w', l')) \<longleftrightarrow> res = Some (r, w') \<and> l' = l @ [x]"
  by (cases res) (auto simp: note_call_def)

lemma Limited_log_grows:
  assumes "\<And>r p s res s'. rd r p s = Some (res, s') \<Longrightarrow> log_grows Q s s'"
      and "LimitedReader_Read rd l p s = Some (res, s')"
  shows "log_grows Q s s'"
  using assms(2)
  by (auto simp: LimitedReader_Read_def Let_def log_grows_refl
           split: if_splits option.splits dest: assms(1))


lemma ReadAll_body_log:
  assumes "ReadAll (LimitedReader_Read (body_Read (logged env))) room l s = Some (res, s')"
  shows "log_grows (\<lambda>x. \<exists>body p. x = CallBodyRead body p) s s'"
proof -
  have rd: "log_grows (\<lambda>x. \<exists>body p. x = CallBodyRead body p) s s'"
    if "body_Read (logged env) r p s = Some (res, s')" for r p s res s'
    using that by (cases s; cases s') (auto simp: logged_fields note_call_Some log_grows_def)
  from ReadAll_loop_rel[OF assms[unfolded ReadAll_def], where Rel = "log_grows (\<lambda>x. \<exists>body p. x = CallBodyRead body p)"]
    Limited_log_grows[of "body_Read (logged env)", OF rd] log_grows_refl log_grows_trans
  show ?thesis by fastforce
qed


lemma logError_log:
  "logError (logged env) e (w, l) = (w', l') \<Longrightarrow> \<exists>f args. l' = l @ [CallFprintf f args]"
  by (cases e) (auto simp: logError_def logged_fields)





lemma httpRequest_cases:
  "httpRequest parse req =
     (case parse (URL req) of
        Inl err \<Rightarrow> Returns (None, Some err)
      | Inr u \<Rightarrow>
          Returns (Some \<lparr>Method = (if Body req \<noteq> [] then ''POST'' else ''GET''), ReqURL = u,
                           ReqHeader = [(''Referer'', [URL req])],
                           ReqBody = (if Body req \<noteq> [] then Some (Body req) else None)\<rparr>, None))"
  by (simp add: httpRequest_def http_NewRequest_def split: sum.splits)

lemma fetchHTTP_log:
  assumes "fetchHTTP (logged env) c req (w, []) = Some (r, (w', l))"
  shows "(\<forall>x \<in> set l. \<not> is_conn_call x)
         \<and> (\<forall>tr h. CallDo tr h \<in> set l \<longrightarrow>
               tr = Transport (httpClient c)
               \<and> httpRequest (url_Parse env) req = Returns (Some h, None))
         \<and> (\<forall>h. httpRequest (url_Parse env) req = Returns (Some h, None) \<longrightarrow>
               l \<noteq> [] \<and> hd l = CallDo (Transport (httpClient c)) h)"
proof (cases "url_Parse env (URL req)")
  case (Inl err)
  with assms show ?thesis
    by (auto simp: fetchHTTP_def httpRequest_cases logged_fields)
next
  case (Inr u)
  define h where "h = \<lparr>Method = (if Body req \<noteq> [] then ''POST'' else ''GET''), ReqURL = u,
                           ReqHeader = [(''Referer'', [URL req])],
                           ReqBody = (if Body req \<noteq> [] then Some (Body req) else None)\<rparr>"
  have hr: "httpRequest (url_Parse env) req = Returns (Some h, None)"
    using Inr by (simp add: httpRequest_cases h_def)
  from assms hr obtain x w1 l1 where
    do: "http_Do (logged env) (Transport (httpClient c)) h (w, []) = Some (x, (w1, l1))"
    by (auto simp: fetchHTTP_def logged_fields split: option.splits)
  then have l1: "l1 = [CallDo (Transport (httpClient c)) h]"
    by (simp add: logged_fields note_call_Some)
  have "\<exists>ext. l = l1 @ ext \<and> (\<forall>x \<in> set ext. \<not> is_conn_call x \<and> (\<forall>tr h. x \<noteq> CallDo tr h))"
  proof (cases x)
    case (Inl err)
    with assms hr do show ?thesis by (simp add: fetchHTTP_def logged_fields)
  next
    case (Inr hres)
    from assms hr do Inr obtain b rerr w2 l2 where
      ra: "ReadAll (LimitedReader_Read (body_Read (logged env))) (buffer_room (logged env))
             (LimitReader (RespBody hres) DefaultReadLimit) (w1, l1) = Some ((b, rerr), (w2, l2))"
      by (auto simp: fetchHTTP_def Let_def logged_fields split: option.splits)
    from ReadAll_body_log[OF ra] obtain ext where
      l2: "l2 = l1 @ ext" and ext0: "\<forall>x \<in> set ext. \<exists>body p. x = CallBodyRead body p"
      by (auto simp: log_grows_def)
    from ext0 have ext: "\<forall>x \<in> set ext. \<not> is_conn_call x \<and> (\<forall>tr h. x \<noteq> CallDo tr h)"
      by fastforce
    show ?thesis
    proof (cases rerr)
      case None
      with assms hr do Inr ra l2 ext show ?thesis
        by (auto simp: fetchHTTP_def Let_def logged_fields)
    next
      case (Some e)
      obtain w3 l3 where le: "logError (logged env) e (w2, l2) = (w3, l3)" by fastforce
      from logError_log[OF le] obtain f args where "l3 = l2 @ [CallFprintf f args]" by blast
      with assms hr do Inr ra l2 ext Some le show ?thesis
        by (auto simp: fetchHTTP_def Let_def logged_fields)
    qed
  qed
  with l1 hr show ?thesis by fastforce
qed


lemma sim_client_eq: "sim_client = \<lparr>httpClient = \<lparr>Transport = \<lparr>Proxy = None, TLSHandshakeTimeout = 10,
        ResponseHeaderTimeout = 10, Dial = Some (Dialer_Dial \<lparr>timeout = 10\<rparr>)\<rparr>\<rparr>, dialFunc = Some (Dialer_Dial \<lparr>timeout = 10\<rparr>)\<rparr>"
  by (simp add: sim_client_def NewClient_def NewClientWithProxy_def sim_env_def)

lemma sim_fields:
  "url_Parse sim_env = sim_url_Parse"
  "time_Now sim_env = clock"
  "net_DialTimeout sim_env network address tmo w =
     (if tmo \<noteq> 0 \<and> tmo < connect_time w
      then Some (Inl timeout_error, w\<lparr>clock := clock w + max 0 tmo\<rparr>)
      else Some (Inr (), w\<lparr>clock := clock w + connect_time w, deadline := None\<rparr>))"
  "socks_Dial sim_env v proxy tmo network address w = Some (Inl (errorString ''no proxy''), w)"
  "conn_SetDeadline sim_env conn t w = (None, w\<lparr>deadline := Some t\<rparr>)"
  "conn_Write sim_env conn b w =
     (case deadline w of
        None \<Rightarrow> Some ((length b, None), w)
      | Some d \<Rightarrow>
          if d \<le> clock w then Some ((0, Some timeout_error), w)
          else Some ((length b, None), w))"
  "conn_Read sim_env conn p w =
     (if (case deadline w of None \<Rightarrow> False | Some d \<Rightarrow> d \<le> clock w)
      then Some (([], Some timeout_error), w)
      else if incoming w \<noteq> []
      then Some ((take p (incoming w), None), w\<lparr>incoming := drop p (incoming w)\<rparr>)
      else if closes w then Some (([], Some EOF), w)
      else (case deadline w of
              None \<Rightarrow> None
            | Some d \<Rightarrow> Some (([], Some timeout_error), w\<lparr>clock := d\<rparr>)))"
  "conn_Close sim_env conn w = w"
  "http_Do sim_env tr h w =
     (if http_server w
      then Some (Inr \<lparr>RespHeader = [(''Content-Type'', [''text/html''])], RespBody = ()\<rparr>, w)
      else Some (Inl (errorString ''connection refused''), w))"
  "body_Read sim_env body p w =
     (if incoming w \<noteq> []
      then Some ((take p (incoming w), None), w\<lparr>incoming := drop p (incoming w)\<rparr>)
      else if closes w then Some (([], Some EOF), w)
      else Some (([], Some timeout_error), w))"
  "stderr_Fprintf sim_env f args w = w"
  "log_Debugf sim_env f args w = w"
  "buffer_room sim_env n = 512"
  "sniff sim_env b = ''text/plain''"
  by (simp_all add: sim_env_def)

section \<open>Runs in the simulated world\<close>

lemma stream_ReadAll_loop:
  fixes rd :: "unit \<Rightarrow> nat \<Rightarrow> sim \<Rightarrow> ((bytes \<times> error option) \<times> sim) option"
  assumes rd: "\<And>r p s. incoming s \<noteq> [] \<Longrightarrow> good s \<Longrightarrow>
                 rd r p s = Some ((take p (incoming s), None), s\<lparr>incoming := drop p (incoming s)\<rparr>)"
      and keep: "\<And>s x. good (s\<lparr>incoming := x\<rparr>) = good s"
      and room: "\<And>n. 0 < room n"
  shows "good s \<Longrightarrow> N l \<le> int (length (incoming s)) \<Longrightarrow>
         ReadAll_loop (LimitedReader_Read rd) room l b s =
           Some ((b @ take (nat (N l)) (incoming s), None),
                 s\<lparr>incoming := drop (nat (N l)) (incoming s)\<rparr>)"
proof (induction "nat (N l)" arbitrary: l b s rule: less_induct)
  case less
  show ?case
  proof (cases "N l \<le> 0")
    case True
    then show ?thesis
      by (subst ReadAll_loop.simps) (simp add: LimitedReader_Read_def)
  next
    case False
    define p where "p = (if int (room (length b)) > N l then nat (N l) else room (length b))"
    have p: "0 < p" "int p \<le> N l" using False room[of "length b"] by (auto simp: p_def)
    with less.prems have ne: "incoming s \<noteq> []" and len: "p \<le> length (incoming s)" by auto
    let ?s' = "s\<lparr>incoming := drop p (incoming s)\<rparr>"
    let ?l' = "l\<lparr>N := N l - int p\<rparr>"
    have step: "LimitedReader_Read rd l (room (length b)) s =
                  Some (((take p (incoming s), None), ?l'), ?s')"
      using False rd[OF ne less.prems(1), of "R l" p] len
      by (simp add: LimitedReader_Read_def p_def[symmetric] Let_def)
    have "ReadAll_loop (LimitedReader_Read rd) room l b s =
            ReadAll_loop (LimitedReader_Read rd) room ?l' (b @ take p (incoming s)) ?s'"
      by (subst ReadAll_loop.simps) (simp add: step)
    also have "\<dots> = Some (((b @ take p (incoming s)) @ take (nat (N ?l')) (incoming ?s'), None),
                         ?s'\<lparr>incoming := drop (nat (N ?l')) (incoming ?s')\<rparr>)"
    proof (rule less.hyps)
      show "nat (N ?l') < nat (N l)" using p False by simp
      show "good ?s'" using less.prems(1) by (simp add: keep)
      show "N ?l' \<le> int (length (incoming ?s'))" using less.prems(2) len by simp
    qed
    also have "(b @ take p (incoming s)) @ take (nat (N ?l')) (incoming ?s')
                 = b @ take (nat (N l)) (incoming s)"
    proof -
      have "nat (N l) = p + nat (N l - int p)" using p by simp
      then have "take (nat (N l)) (incoming s)
                   = take p (incoming s) @ take (nat (N l - int p)) (drop p (incoming s))"
        by (metis take_add)
      then show ?thesis by simp
    qed
    also have "?s'\<lparr>incoming := drop (nat (N ?l')) (incoming ?s')\<rparr>
                 = s\<lparr>incoming := drop (nat (N l)) (incoming s)\<rparr>"
    proof -
      have "nat (N l - int p) + p = nat (N l)" using p by simp
      then show ?thesis by simp
    qed
    finally show ?thesis .
  qed
qed


lemma NewClient_dialFunc:
  "dialFunc (fst (NewClient env tmo w)) = Some (Dialer_Dial \<lparr>timeout = tmo\<rparr>)"
  "Transport (httpClient (fst (NewClient env tmo w))) =
     \<lparr>Proxy = None, TLSHandshakeTimeout = tmo, ResponseHeaderTimeout = tmo,
      Dial = Some (Dialer_Dial \<lparr>timeout = tmo\<rparr>)\<rparr>"
  by (simp_all add: NewClient_def NewClientWithProxy_def)

lemma sim_Client_Dial:
  assumes "dialFunc c = Some (Dialer_Dial \<lparr>timeout = tmo\<rparr>)"
  shows "Client_Dial sim_env c network address s =
           (if tmo \<noteq> 0 \<and> tmo < connect_time s
            then Some (Returns (Inl timeout_error), s\<lparr>clock := clock s + max 0 tmo\<rparr>)
            else Some (Returns (Inr ()),
                       s\<lparr>clock := clock s + connect_time s, deadline := Some (clock s + tmo)\<rparr>))"
  using assms by (simp add: Client_Dial_def DefaultTimeoutDialer_Dial_def sim_fields)

lemma sim_fetchWhois_flood:
  assumes c: "dialFunc c = Some (Dialer_Dial \<lparr>timeout = tmo\<rparr>)"
      and ct: "0 \<le> connect_time s" "connect_time s < tmo"
      and big: "2 ^ 20 \<le> length (incoming s)"
  shows "fetchWhois sim_env c req s =
           Some (Returns (Some \<lparr>ResQuery = Query req, ResHost = Host req,
                                 ResBody = take (2 ^ 20) (incoming s),
                                 ContentType = ''text/plain''\<rparr>, None),
                 s\<lparr>clock := clock s + connect_time s, deadline := Some (clock s + tmo),
                   incoming := drop (2 ^ 20) (incoming s)\<rparr>)"
proof -
  let ?s1 = "s\<lparr>clock := clock s + connect_time s, deadline := Some (clock s + tmo)\<rparr>"
  let ?good = "\<lambda>s. case deadline s of None \<Rightarrow> True | Some d \<Rightarrow> clock s < d"
  have dial: "Client_Dial sim_env c ''tcp'' (Host req @ '':43'') s = Some (Returns (Inr ()), ?s1)"
    using ct by (simp add: sim_Client_Dial[OF c])
  have wr: "conn_Write sim_env () (Body req) ?s1 = Some ((length (Body req), None), ?s1)"
    using ct by (simp add: sim_fields)
  have "ReadAll_loop (LimitedReader_Read (conn_Read sim_env)) (buffer_room sim_env)
          \<lparr>R = (), N = 2 ^ 20\<rparr> [] ?s1 =
        Some (([] @ take (nat (N \<lparr>R = (), N = 2 ^ 20\<rparr>)) (incoming ?s1), None),
              ?s1\<lparr>incoming := drop (nat (N \<lparr>R = (), N = 2 ^ 20\<rparr>)) (incoming ?s1)\<rparr>)"
  proof (rule stream_ReadAll_loop[where good = ?good])
    show "?good ?s1" using ct by simp
    show "N \<lparr>R = (), N = 2 ^ 20\<rparr> \<le> int (length (incoming ?s1))" using big by simp
  qed (auto simp: sim_fields split: option.splits)
  then have ra: "ReadAll (LimitedReader_Read (conn_Read sim_env)) (buffer_room sim_env)
                   (LimitReader () DefaultReadLimit) ?s1 =
                 Some ((take (2 ^ 20) (incoming s), None),
                       ?s1\<lparr>incoming := drop (2 ^ 20) (incoming s)\<rparr>)"
    by (simp add: ReadAll_def LimitReader_def DefaultReadLimit_def)
  show ?thesis
    by (simp add: fetchWhois_def dial wr ra)
       (simp add: NewResponse_def DetectContentType_def sim_fields)
qed


lemma sim_conn_contract: "reader_contract (conn_Read sim_env)"
  by (auto simp: reader_contract_def sim_fields split: if_splits option.splits)

lemma sim_body_contract: "reader_contract (body_Read sim_env)"
  by (auto simp: reader_contract_def sim_fields split: if_splits option.splits)

lemma sim_parse_cenpac:
  "sim_url_Parse ''http://cenpac.net.nr/dns/whois.html?subdomain=foo&tld=net.nr''
     = Inr \<lparr>Scheme = ''http'', UHost = ''cenpac.net.nr''\<rparr>"
  by (simp add: sim_url_Parse_def ToLower_def)

lemma sim_parse_colon: "sim_url_Parse '':1080'' = Inl (urlError ''missing protocol scheme'')"
  by (simp add: sim_url_Parse_def)

lemma sim_fetchHTTP_flood:
  assumes u: "sim_url_Parse (URL req) = Inr u"
      and srv: "http_server s"
      and big: "2 ^ 20 \<le> length (incoming s)"
  shows "fetchHTTP sim_env c req s =
           Some (Returns (Some \<lparr>ResQuery = Query req, ResHost = Host req,
                                 ResBody = take (2 ^ 20) (incoming s),
                                 ContentType = ''text/html''\<rparr>, None),
                 s\<lparr>incoming := drop (2 ^ 20) (incoming s)\<rparr>)"
proof -
  define h where "h = \<lparr>Method = (if Body req \<noteq> [] then ''POST'' else ''GET''), ReqURL = u,
                           ReqHeader = [(''Referer'', [URL req])],
                           ReqBody = (if Body req \<noteq> [] then Some (Body req) else None)\<rparr>"
  have hr: "httpRequest (url_Parse sim_env) req = Returns (Some h, None)"
    using u by (simp add: httpRequest_cases h_def sim_fields)
  have do: "http_Do sim_env (Transport (httpClient c)) h s =
              Some (Inr \<lparr>RespHeader = [(''Content-Type'', [''text/html''])], RespBody = ()\<rparr>, s)"
    using srv by (simp add: sim_fields)
  have "ReadAll_loop (LimitedReader_Read (body_Read sim_env)) (buffer_room sim_env)
          \<lparr>R = (), N = 2 ^ 20\<rparr> [] s =
        Some (([] @ take (nat (N \<lparr>R = (), N = 2 ^ 20\<rparr>)) (incoming s), None),
              s\<lparr>incoming := drop (nat (N \<lparr>R = (), N = 2 ^ 20\<rparr>)) (incoming s)\<rparr>)"
  proof (rule stream_ReadAll_loop[where good = "\<lambda>s. True"])
    show "N \<lparr>R = (), N = 2 ^ 20\<rparr> \<le> int (length (incoming s))" using big by simp
  qed (auto simp: sim_fields)
  then have ra: "ReadAll (LimitedReader_Read (body_Read sim_env)) (buffer_room sim_env)
                   (LimitReader () DefaultReadLimit) s =
                 Some ((take (2 ^ 20) (incoming s), None),
                       s\<lparr>incoming := drop (2 ^ 20) (incoming s)\<rparr>)"
    by (simp add: ReadAll_def LimitReader_def DefaultReadLimit_def)
  show ?thesis
    by (simp add: fetchHTTP_def hr do ra)
       (simp add: NewResponse_def DetectContentType_def Header_Get_def sim_fields)
qed



lemma run_http:
 "Fetch (logged sim_env) sim_client
     \<lparr>Query = ''foo.net.nr'', Host = ''cenpac.net.nr'', Body = [],
      URL = ''http://cenpac.net.nr/dns/whois.html?subdomain=foo&tld=net.nr''\<rparr>
     (\<lparr>clock = 0, deadline = None, connect_time = 1, incoming = ''hello'', closes = True,
       http_server = True\<rparr>, []) =
  Some (Returns (Some \<lparr>ResQuery = ''foo.net.nr'', ResHost = ''cenpac.net.nr'',
                         ResBody = ''hello'', ContentType = ''text/html''\<rparr>, None),
        \<lparr>clock = 0, deadline = None, connect_time = 1, incoming = [], closes = True,
          http_server = True\<rparr>,
        [CallDo \<lparr>Proxy = None, TLSHandshakeTimeout = 10, ResponseHeaderTimeout = 10,
                  Dial = Some (Dialer_Dial \<lparr>timeout = 10\<rparr>)\<rparr>
                \<lparr>Method = ''GET'', ReqURL = \<lparr>Scheme = ''http'', UHost = ''cenpac.net.nr''\<rparr>,
                  ReqHeader = [(''Referer'',
                     [''http://cenpac.net.nr/dns/whois.html?subdomain=foo&tld=net.nr''])],
                  ReqBody = None\<rparr>,
         CallBodyRead () 512, CallBodyRead () 512])"
proof -
  let ?req = "\<lparr>Query = ''foo.net.nr'', Host = ''cenpac.net.nr'', Body = [],
      URL = ''http://cenpac.net.nr/dns/whois.html?subdomain=foo&tld=net.nr''\<rparr>"
  let ?tr = "\<lparr>Proxy = None, TLSHandshakeTimeout = 10, ResponseHeaderTimeout = 10,
                  Dial = Some (Dialer_Dial \<lparr>timeout = 10\<rparr>)\<rparr>"
  let ?h = "\<lparr>Method = ''GET'', ReqURL = \<lparr>Scheme = ''http'', UHost = ''cenpac.net.nr''\<rparr>,
                  ReqHeader = [(''Referer'',
                     [''http://cenpac.net.nr/dns/whois.html?subdomain=foo&tld=net.nr''])],
                  ReqBody = None\<rparr>"
  let ?w0 = "\<lparr>clock = 0, deadline = None, connect_time = 1, incoming = ''hello'', closes = True,
       http_server = True\<rparr>"
  let ?w2 = "\<lparr>clock = 0, deadline = None, connect_time = 1, incoming = [], closes = True,
       http_server = True\<rparr>"
  let ?hres = "\<lparr>RespHeader = [(''Content-Type'', [''text/html''])], RespBody = ()\<rparr>"
  have hr: "httpRequest (url_Parse (logged sim_env)) ?req = Returns (Some ?h, None)"
    by (simp add: httpRequest_cases logged_fields sim_fields sim_parse_cenpac)
  have do: "http_Do (logged sim_env) (Transport (httpClient sim_client)) ?h (?w0, [])
              = Some (Inr ?hres, (?w0, [CallDo ?tr ?h]))"
    by (simp add: sim_client_eq logged_fields note_call_def sim_fields)
  have r1: "LimitedReader_Read (body_Read (logged sim_env)) \<lparr>R = (), N = 2 ^ 20\<rparr> 512
              (?w0, [CallDo ?tr ?h])
     = Some (((''hello'', None), \<lparr>R = (), N = 2 ^ 20 - 5\<rparr>),
             (?w2, [CallDo ?tr ?h, CallBodyRead () 512]))"
    by (simp add: LimitedReader_Read_def logged_fields note_call_def sim_fields)
  have r2: "LimitedReader_Read (body_Read (logged sim_env)) \<lparr>R = (), N = 2 ^ 20 - 5\<rparr> 512
              (?w2, [CallDo ?tr ?h, CallBodyRead () 512])
     = Some ((([], Some EOF), \<lparr>R = (), N = 2 ^ 20 - 5\<rparr>),
             (?w2, [CallDo ?tr ?h, CallBodyRead () 512, CallBodyRead () 512]))"
    by (simp add: LimitedReader_Read_def logged_fields note_call_def sim_fields)
  have ra: "ReadAll (LimitedReader_Read (body_Read (logged sim_env))) (buffer_room (logged sim_env))
              (LimitReader () DefaultReadLimit) (?w0, [CallDo ?tr ?h])
     = Some ((''hello'', None), (?w2, [CallDo ?tr ?h, CallBodyRead () 512, CallBodyRead () 512]))"
    unfolding ReadAll_def LimitReader_def DefaultReadLimit_def
    by (subst ReadAll_loop.simps, simp add: r1[simplified] logged_fields sim_fields,
        subst ReadAll_loop.simps, simp add: r2[simplified] logged_fields sim_fields)
  show ?thesis
    by (simp add: Fetch_def fetchHTTP_def hr do ra)
       (simp add: NewResponse_def DetectContentType_def Header_Get_def logged_fields sim_fields)
qed

section \<open>The read limit\<close>

text \<open>
  Claim C2. On the raw-socket path and on the HTTP path alike, the body of the response
  that \<open>Fetch\<close> returns holds at most \<open>2^20\<close> bytes (1 MiB), for every environment
  whose reads obey the contract of a reader. In the simulated world a peer that sends
  \<open>2^20\<close> bytes or more gets exactly its first \<open>2^20\<close> bytes read, on either path, and
  the rest is left unread.
\<close>

theorem Fetch_reads_at_most_DefaultReadLimit:
  "(reader_contract (conn_Read env) \<and> reader_contract (body_Read env)
      \<and> Fetch env c req w = Some (Returns (Some res, err), w') \<longrightarrow>
    length (ResBody res) \<le> 2 ^ 20)
   \<and> (URL req = [] \<and> 0 \<le> connect_time s \<and> connect_time s < tmo
        \<and> 2 ^ 20 \<le> length (incoming s) \<longrightarrow>
      Fetch sim_env (fst (NewClient sim_env tmo s0)) req s =
        Some (Returns (Some \<lparr>ResQuery = Query req, ResHost = Host req,
                              ResBody = take (2 ^ 20) (incoming s),
                              ContentType = ''text/plain''\<rparr>, None),
              s\<lparr>clock := clock s + connect_time s, deadline := Some (clock s + tmo),
                incoming := drop (2 ^ 20) (incoming s)\<rparr>))
   \<and> (URL req \<noteq> [] \<and> sim_url_Parse (URL req) = Inr u \<and> http_server s
        \<and> 2 ^ 20 \<le> length (incoming s) \<longrightarrow>
      Fetch sim_env c req s =
        Some (Returns (Some \<lparr>ResQuery = Query req, ResHost = Host req,
                              ResBody = take (2 ^ 20) (incoming s),
                              ContentType = ''text/html''\<rparr>, None),
              s\<lparr>incoming := drop (2 ^ 20) (incoming s)\<rparr>))"
  using Fetch_body_bound[of env c req w res err w']
        sim_fetchWhois_flood[OF NewClient_dialFunc(1), of s tmo sim_env s0 req]
        sim_fetchHTTP_flood[of req u s c]
  by (simp add: Fetch_def)

theorem Fetch_reads_at_most_DefaultReadLimit_witness:
  "Fetch sim_env sim_client
     \<lparr>Query = ''example.com'', Host = ''whois.verisign-grs.com'', Body = ''example.com'',
      URL = []\<rparr>
     \<lparr>clock = 0, deadline = None, connect_time = 1,
      incoming = replicate (2 ^ 20 + 5) (CHR ''x''), closes = False, http_server = False\<rparr>
   = Some (Returns (Some \<lparr>ResQuery = ''example.com'', ResHost = ''whois.verisign-grs.com'',
                          ResBody = replicate (2 ^ 20) (CHR ''x''),
                          ContentType = ''text/plain''\<rparr>, None),
           \<lparr>clock = 1, deadline = Some 10, connect_time = 1,
            incoming = replicate 5 (CHR ''x''), closes = False, http_server = False\<rparr>)
   \<and> length (replicate (2 ^ 20) (CHR ''x'')) \<le> (2::nat) ^ 20"
proof -
  let ?req = "\<lparr>Query = ''example.com'', Host = ''whois.verisign-grs.com'', Body = ''example.com'',
      URL = []\<rparr>"
  let ?s = "\<lparr>clock = 0, deadline = None, connect_time = 1,
      incoming = replicate (2 ^ 20 + 5) (CHR ''x''), closes = False, http_server = False\<rparr>"
  let ?init = "\<lparr>clock = 0, deadline = None, connect_time = 1, incoming = [], closes = True,
             http_server = True\<rparr>"
  let ?res = "\<lparr>ResQuery = ''example.com'', ResHost = ''whois.verisign-grs.com'',
                          ResBody = replicate (2 ^ 20) (CHR ''x''),
                          ContentType = ''text/plain''\<rparr>"
  let ?s' = "\<lparr>clock = 1, deadline = Some 10, connect_time = 1,
            incoming = replicate 5 (CHR ''x''), closes = False, http_server = False\<rparr>"
  have h1: "URL ?req = []" by simp
  have h2: "0 \<le> connect_time ?s" by simp
  have h3: "connect_time ?s < 10" by simp
  have h4: "2 ^ 20 \<le> length (incoming ?s)" by simp
  have hyp: "URL ?req = [] \<and> 0 \<le> connect_time ?s \<and> connect_time ?s < 10
        \<and> 2 ^ 20 \<le> length (incoming ?s)" using h1 h2 h3 h4 by blast
  have "Fetch sim_env (fst (NewClient sim_env 10 ?init)) ?req ?s =
        Some (Returns (Some \<lparr>ResQuery = Query ?req, ResHost = Host ?req,
                              ResBody = take (2 ^ 20) (incoming ?s),
                              ContentType = ''text/plain''\<rparr>, None),
              ?s\<lparr>clock := clock ?s + connect_time ?s, deadline := Some (clock ?s + 10),
                incoming := drop (2 ^ 20) (incoming ?s)\<rparr>)"
    by (rule mp[OF Fetch_reads_at_most_DefaultReadLimit
                     [where req = ?req and s = ?s and tmo = 10 and ?s0.0 = ?init,
                      THEN conjunct2, THEN conjunct1] hyp])
  then have run: "Fetch sim_env sim_client ?req ?s = Some (Returns (Some ?res, None), ?s')"
    by (simp add: sim_client_def)
  have "reader_contract (conn_Read sim_env) \<and> reader_contract (body_Read sim_env)
          \<and> Fetch sim_env sim_client ?req ?s = Some (Returns (Some ?res, None), ?s')"
    using run sim_conn_contract sim_body_contract by blast
  then have "length (ResBody ?res) \<le> 2 ^ 20"
    by (rule mp[OF Fetch_reads_at_most_DefaultReadLimit[THEN conjunct1]])
  with run show ?thesis by simp
qed

section \<open>Dispatch and the outbound HTTP request\<close>



text \<open>
  Claim C8. The HTTP request that \<open>httpRequest\<close> builds has method \<open>POST\<close> and the
  request's body as payload when that body is not empty, method \<open>GET\<close> and no payload
  otherwise; its target is the parsed URL of the request, and its only header is a
  \<open>Referer\<close> equal to that URL. It is built whenever the URL parses, and it is the
  request every run of \<open>Fetch\<close> on the HTTP path sends.
\<close>

theorem httpRequest_method_and_Referer:
  "(httpRequest parse req = Returns (Some h, e) \<longrightarrow>
      e = None \<and> parse (URL req) = Inr (ReqURL h)
      \<and> Method h = (if Body req \<noteq> [] then ''POST'' else ''GET'')
      \<and> ReqBody h = (if Body req \<noteq> [] then Some (Body req) else None)
      \<and> Header_Get (ReqHeader h) ''Referer'' = URL req
      \<and> ReqHeader h = [(''Referer'', [URL req])])
   \<and> (parse (URL req) = Inr u \<longrightarrow> (\<exists>h. httpRequest parse req = Returns (Some h, None)))
   \<and> (URL req \<noteq> [] \<and> Fetch (logged env) c req (w, []) = Some (r, (w', l))
        \<and> CallDo tr h' \<in> set l \<longrightarrow>
      tr = Transport (httpClient c) \<and> httpRequest (url_Parse env) req = Returns (Some h', None))"
proof -
  have a: "httpRequest parse req = Returns (Some h, e) \<Longrightarrow>
      e = None \<and> parse (URL req) = Inr (ReqURL h)
      \<and> Method h = (if Body req \<noteq> [] then ''POST'' else ''GET'')
      \<and> ReqBody h = (if Body req \<noteq> [] then Some (Body req) else None)
      \<and> Header_Get (ReqHeader h) ''Referer'' = URL req
      \<and> ReqHeader h = [(''Referer'', [URL req])]"
    by (auto simp: httpRequest_cases Header_Get_def split: sum.splits)
  have b: "parse (URL req) = Inr u \<Longrightarrow> \<exists>h. httpRequest parse req = Returns (Some h, None)"
    by (simp add: httpRequest_cases)
  have c: "URL req \<noteq> [] \<Longrightarrow> Fetch (logged env) c req (w, []) = Some (r, (w', l))
        \<Longrightarrow> CallDo tr h' \<in> set l \<Longrightarrow>
      tr = Transport (httpClient c) \<and> httpRequest (url_Parse env) req = Returns (Some h', None)"
    using fetchHTTP_log[of env c req w r w' l] by (simp add: Fetch_def)
  from a b c show ?thesis by blast
qed

theorem httpRequest_method_and_Referer_witness:
  "httpRequest sim_url_Parse
     \<lparr>Query = ''foo.net.nr'', Host = ''cenpac.net.nr'', Body = ''q=foo'',
      URL = ''http://cenpac.net.nr/dns/whois.html?subdomain=foo&tld=net.nr''\<rparr>
   = Returns (Some \<lparr>Method = ''POST'',
                     ReqURL = \<lparr>Scheme = ''http'', UHost = ''cenpac.net.nr''\<rparr>,
                     ReqHeader = [(''Referer'',
                        [''http://cenpac.net.nr/dns/whois.html?subdomain=foo&tld=net.nr''])],
                     ReqBody = Some ''q=foo''\<rparr>, None)
   \<and> httpRequest (url_Parse sim_env)
     \<lparr>Query = ''foo.net.nr'', Host = ''cenpac.net.nr'', Body = [],
      URL = ''http://cenpac.net.nr/dns/whois.html?subdomain=foo&tld=net.nr''\<rparr>
   = Returns (Some \<lparr>Method = ''GET'',
                     ReqURL = \<lparr>Scheme = ''http'', UHost = ''cenpac.net.nr''\<rparr>,
                     ReqHeader = [(''Referer'',
                        [''http://cenpac.net.nr/dns/whois.html?subdomain=foo&tld=net.nr''])],
                     ReqBody = None\<rparr>, None)"
proof -
  let ?url = "''http://cenpac.net.nr/dns/whois.html?subdomain=foo&tld=net.nr''"
  let ?post = "\<lparr>Query = ''foo.net.nr'', Host = ''cenpac.net.nr'', Body = ''q=foo'', URL = ?url\<rparr>"
  let ?get = "\<lparr>Query = ''foo.net.nr'', Host = ''cenpac.net.nr'', Body = [], URL = ?url\<rparr>"
  let ?tr = "\<lparr>Proxy = None, TLSHandshakeTimeout = 10, ResponseHeaderTimeout = 10,
                  Dial = Some (Dialer_Dial \<lparr>timeout = 10\<rparr>)\<rparr>"
  let ?h = "\<lparr>Method = ''GET'', ReqURL = \<lparr>Scheme = ''http'', UHost = ''cenpac.net.nr''\<rparr>,
             ReqHeader = [(''Referer'', [?url])], ReqBody = None\<rparr>"
  have p: "sim_url_Parse (URL ?post) = Inr \<lparr>Scheme = ''http'', UHost = ''cenpac.net.nr''\<rparr>"
    by (simp add: sim_parse_cenpac)
  from mp[OF httpRequest_method_and_Referer
               [where parse = sim_url_Parse and req = ?post, THEN conjunct2, THEN conjunct1] p]
  obtain h where h: "httpRequest sim_url_Parse ?post = Returns (Some h, None)" by blast
  from mp[OF httpRequest_method_and_Referer
               [where parse = sim_url_Parse and req = ?post, THEN conjunct1] h]
  have "sim_url_Parse (URL ?post) = Inr (ReqURL h) \<and> Method h = ''POST''
        \<and> ReqBody h = Some ''q=foo'' \<and> ReqHeader h = [(''Referer'', [?url])]"
    by simp
  with p have "h = \<lparr>Method = ''POST'',
                     ReqURL = \<lparr>Scheme = ''http'', UHost = ''cenpac.net.nr''\<rparr>,
                     ReqHeader = [(''Referer'', [?url])], ReqBody = Some ''q=foo''\<rparr>"
    by (cases h) simp
  with h have a: "httpRequest sim_url_Parse ?post
       = Returns (Some \<lparr>Method = ''POST'',
                     ReqURL = \<lparr>Scheme = ''http'', UHost = ''cenpac.net.nr''\<rparr>,
                     ReqHeader = [(''Referer'', [?url])], ReqBody = Some ''q=foo''\<rparr>, None)"
    by simp
  have "URL ?get \<noteq> []
        \<and> Fetch (logged sim_env) sim_client ?get
            (\<lparr>clock = 0, deadline = None, connect_time = 1, incoming = ''hello'', closes = True,
              http_server = True\<rparr>, []) =
          Some (Returns (Some \<lparr>ResQuery = ''foo.net.nr'', ResHost = ''cenpac.net.nr'',
                         ResBody = ''hello'', ContentType = ''text/html''\<rparr>, None),
               (\<lparr>clock = 0, deadline = None, connect_time = 1, incoming = [], closes = True,
                  http_server = True\<rparr>,
                [CallDo ?tr ?h, CallBodyRead () 512, CallBodyRead () 512]))
        \<and> CallDo ?tr ?h \<in> set [CallDo ?tr ?h, CallBodyRead () 512, CallBodyRead () 512]"
    using run_http by simp
  from mp[OF httpRequest_method_and_Referer
               [where env = sim_env and req = ?get and c = sim_client,
                THEN conjunct2, THEN conjunct2] this]
  have b: "httpRequest (url_Parse sim_env) ?get = Returns (Some ?h, None)" by blast
  from a b show ?thesis by blast
qed

section \<open>Read failures\<close>




section \<open>Client construction and the direct dialer\<close>

text \<open>
  Claim C7, on the code: with a proxy string that is not empty and does not parse,
  \<open>NewClientWithProxy\<close> logs the error and returns a client without a proxy whose dial
  function is nil, for the raw-socket path and for the HTTP transport alike, where
  \<open>NewClient\<close> installs the dialer with a deadline; \<open>Fetch\<close> on the raw-socket path
  then panics on the nil function instead of dialing directly.
\<close>

theorem malformed_proxy_leaves_nil_dialer:
  "proxy \<noteq> [] \<and> url_Parse env proxy = Inl e \<longrightarrow>
     NewClientWithProxy env tmo proxy w =
       (\<lparr>httpClient = \<lparr>Transport = \<lparr>Proxy = None, TLSHandshakeTimeout = tmo,
                                     ResponseHeaderTimeout = tmo, Dial = None\<rparr>\<rparr>,
         dialFunc = None\<rparr>,
        log_Debugf env ''Error parsing URL (%s): %s'' [ArgString proxy, ArgError e] w)
     \<and> dialFunc (fst (NewClient env tmo w)) = Some (Dialer_Dial \<lparr>timeout = tmo\<rparr>)
     \<and> (URL req = [] \<longrightarrow>
          Fetch env (fst (NewClientWithProxy env tmo proxy w)) req w'
            = Some (Panics NilDereference, w'))"
  by (simp add: NewClientWithProxy_def NewClient_def Fetch_def fetchWhois_def Client_Dial_def)

theorem malformed_proxy_leaves_nil_dialer_witness:
  "NewClientWithProxy sim_env 10 '':1080''
     \<lparr>clock = 0, deadline = None, connect_time = 1, incoming = [], closes = True,
      http_server = True\<rparr>
   = (\<lparr>httpClient = \<lparr>Transport = \<lparr>Proxy = None, TLSHandshakeTimeout = 10,
                                   ResponseHeaderTimeout = 10, Dial = None\<rparr>\<rparr>,
       dialFunc = None\<rparr>,
      \<lparr>clock = 0, deadline = None, connect_time = 1, incoming = [], closes = True,
       http_server = True\<rparr>)
   \<and> dialFunc sim_client = Some (Dialer_Dial \<lparr>timeout = 10\<rparr>)
   \<and> Fetch sim_env
       (fst (NewClientWithProxy sim_env 10 '':1080''
               \<lparr>clock = 0, deadline = None, connect_time = 1, incoming = [], closes = True,
                http_server = True\<rparr>))
       \<lparr>Query = ''example.com'', Host = ''whois.verisign-grs.com'', Body = ''example.com'',
        URL = []\<rparr>
       \<lparr>clock = 0, deadline = None, connect_time = 1, incoming = ''hello'', closes = True,
        http_server = True\<rparr>
     = Some (Panics NilDereference,
             \<lparr>clock = 0, deadline = None, connect_time = 1, incoming = ''hello'', closes = True,
              http_server = True\<rparr>)"
proof -
  let ?init = "\<lparr>clock = 0, deadline = None, connect_time = 1, incoming = [], closes = True,
      http_server = True\<rparr>"
  let ?req = "\<lparr>Query = ''example.com'', Host = ''whois.verisign-grs.com'', Body = ''example.com'',
        URL = []\<rparr>"
  have h: "'':1080'' \<noteq> [] \<and> url_Parse sim_env '':1080'' = Inl (urlError ''missing protocol scheme'')"
    by (simp add: sim_fields sim_parse_colon)
  note T = mp[OF malformed_proxy_leaves_nil_dialer
               [where env = sim_env and tmo = 10 and w = ?init and req = ?req
                  and w' = "\<lparr>clock = 0, deadline = None, connect_time = 1,
                             incoming = ''hello'', closes = True, http_server = True\<rparr>"] h]
  from T[THEN conjunct1] have a:
    "NewClientWithProxy sim_env 10 '':1080'' ?init
       = (\<lparr>httpClient = \<lparr>Transport = \<lparr>Proxy = None, TLSHandshakeTimeout = 10,
                                       ResponseHeaderTimeout = 10, Dial = None\<rparr>\<rparr>,
           dialFunc = None\<rparr>, ?init)"
    by (simp add: sim_fields)
  from T[THEN conjunct2, THEN conjunct1] have b:
    "dialFunc sim_client = Some (Dialer_Dial \<lparr>timeout = 10\<rparr>)"
    by (simp add: sim_client_def)
  from T[THEN conjunct2, THEN conjunct2] have c:
    "Fetch sim_env (fst (NewClientWithProxy sim_env 10 '':1080'' ?init)) ?req
       \<lparr>clock = 0, deadline = None, connect_time = 1, incoming = ''hello'', closes = True,
        http_server = True\<rparr>
     = Some (Panics NilDereference,
             \<lparr>clock = 0, deadline = None, connect_time = 1, incoming = ''hello'', closes = True,
              http_server = True\<rparr>)"
    by simp
  from a b c show ?thesis by blast
qed



end
